theory Spec2Isabelle
  imports Complex_Main
begin

section \<open>Vectors and axis-aligned boxes\<close>

text \<open>
  The source stores coordinates as C \<^verbatim>\<open>float\<close>. Here a coordinate is a real number:
  rounding, NaN and the infinities are outside this development, and every comparison of
  the source is the comparison of the reals. The theorems below therefore speak of the
  geometry through the source's own tests and expressions (the box test, the test of the
  squared length, the segment box), of which they use the comparisons, the copying of
  values and the monotonicity, and not through exact points on the ray.
\<close>

record Vec2f =
  vec_x :: real
  vec_y :: real

text \<open>
  Modelled from the spec: the vector helpers of \<^verbatim>\<open>ci::Vec2f\<close> and \<^verbatim>\<open>cb2Math.h\<close>
  (difference, sum, scaling, squared length, normalisation, the scalar-vector cross
  product, componentwise absolute value, minimum and maximum, and the dot product) are
  used by \<^verbatim>\<open>cb2DynamicTree.h\<close> and are not among the sources.
\<close>

definition vec_sub :: "Vec2f \<Rightarrow> Vec2f \<Rightarrow> Vec2f" where
  "vec_sub a b = \<lparr>vec_x = vec_x a - vec_x b, vec_y = vec_y a - vec_y b\<rparr>"

definition vec_add :: "Vec2f \<Rightarrow> Vec2f \<Rightarrow> Vec2f" where
  "vec_add a b = \<lparr>vec_x = vec_x a + vec_x b, vec_y = vec_y a + vec_y b\<rparr>"

definition vec_scale :: "real \<Rightarrow> Vec2f \<Rightarrow> Vec2f" where
  "vec_scale s a = \<lparr>vec_x = s * vec_x a, vec_y = s * vec_y a\<rparr>"

definition lengthSquared :: "Vec2f \<Rightarrow> real" where
  "lengthSquared a = vec_x a * vec_x a + vec_y a * vec_y a"

definition normalized :: "Vec2f \<Rightarrow> Vec2f" where
  "normalized a = vec_scale (1 / sqrt (lengthSquared a)) a"

definition cb2Cross :: "real \<Rightarrow> Vec2f \<Rightarrow> Vec2f" where
  "cb2Cross s a = \<lparr>vec_x = - s * vec_y a, vec_y = s * vec_x a\<rparr>"

definition cb2Abs :: "Vec2f \<Rightarrow> Vec2f" where
  "cb2Abs a = \<lparr>vec_x = \<bar>vec_x a\<bar>, vec_y = \<bar>vec_y a\<bar>\<rparr>"

definition cb2Dot :: "Vec2f \<Rightarrow> Vec2f \<Rightarrow> real" where
  "cb2Dot a b = vec_x a * vec_x b + vec_y a * vec_y b"

definition cb2Min :: "Vec2f \<Rightarrow> Vec2f \<Rightarrow> Vec2f" where
  "cb2Min a b = \<lparr>vec_x = min (vec_x a) (vec_x b), vec_y = min (vec_y a) (vec_y b)\<rparr>"

definition cb2Max :: "Vec2f \<Rightarrow> Vec2f \<Rightarrow> Vec2f" where
  "cb2Max a b = \<lparr>vec_x = max (vec_x a) (vec_x b), vec_y = max (vec_y a) (vec_y b)\<rparr>"

record cb2AABB =
  lowerBound :: Vec2f
  upperBound :: Vec2f

text \<open>
  Modelled from the spec: \<^verbatim>\<open>cb2Collision.h\<close> is not among the sources. It declares
  the box (lower and upper corner), its centre and half-extents, the enclosure test of
  invariant 1 and the box-box overlap test that both traversals prune with.
\<close>

definition GetCenter :: "cb2AABB \<Rightarrow> Vec2f" where
  "GetCenter b = vec_scale (1 / 2) (vec_add (lowerBound b) (upperBound b))"

definition GetExtents :: "cb2AABB \<Rightarrow> Vec2f" where
  "GetExtents b = vec_scale (1 / 2) (vec_sub (upperBound b) (lowerBound b))"

definition Contains :: "cb2AABB \<Rightarrow> cb2AABB \<Rightarrow> bool" where
  "Contains b inner \<longleftrightarrow>
     vec_x (lowerBound b) \<le> vec_x (lowerBound inner) \<and>
     vec_y (lowerBound b) \<le> vec_y (lowerBound inner) \<and>
     vec_x (upperBound inner) \<le> vec_x (upperBound b) \<and>
     vec_y (upperBound inner) \<le> vec_y (upperBound b)"

definition cb2TestOverlap :: "cb2AABB \<Rightarrow> cb2AABB \<Rightarrow> bool" where
  "cb2TestOverlap a b =
     (let d1 = vec_sub (lowerBound b) (upperBound a);
          d2 = vec_sub (lowerBound a) (upperBound b)
      in if vec_x d1 > 0 \<or> vec_y d1 > 0 then False
         else if vec_x d2 > 0 \<or> vec_y d2 > 0 then False
         else True)"

section \<open>The node pool and the tree\<close>

definition cb2_nullNode :: int where
  "cb2_nullNode = - 1"

text \<open>
  A node of the pool. The field \<open>parent\<close> is the union of \<^verbatim>\<open>parent\<close> and \<^verbatim>\<open>next\<close> of
  the source; \<open>userData\<close> is the address held by the \<^verbatim>\<open>void*\<close>.
\<close>

record cb2TreeNode =
  aabb :: cb2AABB
  userData :: nat
  parent :: int
  child1 :: int
  child2 :: int
  height :: int

definition IsLeaf :: "cb2TreeNode \<Rightarrow> bool" where
  "IsLeaf node \<longleftrightarrow> child1 node = cb2_nullNode"

record cb2DynamicTree =
  m_root :: int
  m_nodes :: "cb2TreeNode list"
  m_nodeCount :: int
  m_nodeCapacity :: int
  m_freeList :: int
  m_path :: nat
  m_insertionCount :: int

text \<open>
  What a run can end in besides returning: a failed \<^verbatim>\<open>cb2Assert\<close> (the debug build
  aborts), or a read of \<^verbatim>\<open>m_nodes + nodeId\<close> outside the allocated pool, which the
  source does not check and C++ leaves undefined.
\<close>

datatype fault = AssertionFailed | InvalidNodeAccess int

definition node_at :: "cb2DynamicTree \<Rightarrow> int \<Rightarrow> cb2TreeNode option" where
  "node_at t i =
     (if 0 \<le> i \<and> i < int (length (m_nodes t)) then Some (m_nodes t ! nat i) else None)"

definition GetUserData :: "cb2DynamicTree \<Rightarrow> int \<Rightarrow> fault + nat" where
  "GetUserData t proxyId =
     (if \<not> (0 \<le> proxyId \<and> proxyId < m_nodeCapacity t) then Inl AssertionFailed
      else case node_at t proxyId of
             None \<Rightarrow> Inl (InvalidNodeAccess proxyId)
           | Some node \<Rightarrow> Inr (userData node))"

definition GetFatAABB :: "cb2DynamicTree \<Rightarrow> int \<Rightarrow> fault + cb2AABB" where
  "GetFatAABB t proxyId =
     (if \<not> (0 \<le> proxyId \<and> proxyId < m_nodeCapacity t) then Inl AssertionFailed
      else case node_at t proxyId of
             None \<Rightarrow> Inl (InvalidNodeAccess proxyId)
           | Some node \<Rightarrow> Inr (aabb node))"

section \<open>Query\<close>

text \<open>
  The state of one run of \<^verbatim>\<open>Query\<close>: the tree (threaded through, so that a write would
  show), the visitor object, the explicit stack (top first; \<^verbatim>\<open>cb2GrowableStack\<close> is
  not among the sources and grows on demand, so it is a list), and the record of the
  calls made to \<^verbatim>\<open>QueryCallback\<close> so far, each with the value it returned.

  The visitor is a transition function on its own state: \<open>QueryCallback s nodeId\<close> is
  the returned flag and the visitor's next state. The natural number bounds the
  iterations of the \<^verbatim>\<open>while\<close> loop: \<open>None\<close> is a loop still running when the bound is
  used up.
\<close>

record 's query_run =
  q_tree :: cb2DynamicTree
  q_visitor :: 's
  q_stack :: "int list"
  q_calls :: "(int \<times> bool) list"

fun Query_loop ::
  "nat \<Rightarrow> ('s \<Rightarrow> int \<Rightarrow> bool \<times> 's) \<Rightarrow> cb2AABB \<Rightarrow> 's query_run \<Rightarrow> (fault + 's query_run) option"
where
  "Query_loop 0 QueryCallback box st =
     (case q_stack st of [] \<Rightarrow> Some (Inr st) | nodeId # rest \<Rightarrow> None)"
| "Query_loop (Suc k) QueryCallback box st =
     (case q_stack st of
        [] \<Rightarrow> Some (Inr st)
      | nodeId # rest \<Rightarrow>
          if nodeId = cb2_nullNode then Query_loop k QueryCallback box (st\<lparr>q_stack := rest\<rparr>)
          else
            (case node_at (q_tree st) nodeId of
               None \<Rightarrow> Some (Inl (InvalidNodeAccess nodeId))
             | Some node \<Rightarrow>
                 if cb2TestOverlap (aabb node) box then
                   (if IsLeaf node then
                      (case QueryCallback (q_visitor st) nodeId of
                         (proceed, s') \<Rightarrow>
                           if proceed = False then
                             Some (Inr (st\<lparr>q_stack := rest, q_visitor := s',
                                            q_calls := q_calls st @ [(nodeId, proceed)]\<rparr>))
                           else
                             Query_loop k QueryCallback box
                               (st\<lparr>q_stack := rest, q_visitor := s',
                                   q_calls := q_calls st @ [(nodeId, proceed)]\<rparr>))
                    else
                      Query_loop k QueryCallback box
                        (st\<lparr>q_stack := child2 node # child1 node # rest\<rparr>))
                 else Query_loop k QueryCallback box (st\<lparr>q_stack := rest\<rparr>)))"

definition Query ::
  "nat \<Rightarrow> cb2DynamicTree \<Rightarrow> ('s \<Rightarrow> int \<Rightarrow> bool \<times> 's) \<Rightarrow> cb2AABB \<Rightarrow> 's \<Rightarrow> (fault + 's query_run) option"
where
  "Query n t QueryCallback box s =
     Query_loop n QueryCallback box
       \<lparr>q_tree = t, q_visitor = s, q_stack = [m_root t], q_calls = []\<rparr>"

section \<open>RayCast\<close>

record cb2RayCastInput =
  p1 :: Vec2f
  p2 :: Vec2f
  maxFraction :: real

text \<open>
  The bounding box of the segment from \<open>a\<close> to \<open>t\<close>: the three lines that the source
  writes once before the loop and once more after a positive return.
\<close>

definition segment_box :: "Vec2f \<Rightarrow> Vec2f \<Rightarrow> cb2AABB" where
  "segment_box a t = \<lparr>lowerBound = cb2Min a t, upperBound = cb2Max a t\<rparr>"

definition clipped_box :: "cb2RayCastInput \<Rightarrow> real \<Rightarrow> cb2AABB" where
  "clipped_box input fraction =
     segment_box (p1 input)
       (vec_add (p1 input) (vec_scale fraction (vec_sub (p2 input) (p1 input))))"

text \<open>The separating-axis value of the loop body: \<^verbatim>\<open>|dot(v, p1 - c)| - dot(|v|, h)\<close>.\<close>

definition separation :: "Vec2f \<Rightarrow> Vec2f \<Rightarrow> Vec2f \<Rightarrow> cb2AABB \<Rightarrow> real" where
  "separation v abs_v p b =
     \<bar>cb2Dot v (vec_sub p (GetCenter b))\<bar> - cb2Dot abs_v (GetExtents b)"

text \<open>
  The state of one run of \<^verbatim>\<open>RayCast\<close>: as for \<^verbatim>\<open>Query\<close>, with the two locals that the
  loop rewrites (\<^verbatim>\<open>maxFraction\<close>, \<^verbatim>\<open>segmentAABB\<close>). A recorded call is the sub-input
  handed to \<^verbatim>\<open>RayCastCallback\<close>, the node index, and the returned value.
\<close>

record 's ray_run =
  r_tree :: cb2DynamicTree
  r_visitor :: 's
  r_stack :: "int list"
  r_maxFraction :: real
  r_segmentAABB :: cb2AABB
  r_calls :: "(cb2RayCastInput \<times> int \<times> real) list"

fun RayCast_loop ::
  "nat \<Rightarrow> ('s \<Rightarrow> cb2RayCastInput \<Rightarrow> int \<Rightarrow> real \<times> 's) \<Rightarrow> cb2RayCastInput \<Rightarrow> Vec2f \<Rightarrow> Vec2f \<Rightarrow>
   's ray_run \<Rightarrow> (fault + 's ray_run) option"
where
  "RayCast_loop 0 RayCastCallback input v abs_v st =
     (case r_stack st of [] \<Rightarrow> Some (Inr st) | nodeId # rest \<Rightarrow> None)"
| "RayCast_loop (Suc k) RayCastCallback input v abs_v st =
     (case r_stack st of
        [] \<Rightarrow> Some (Inr st)
      | nodeId # rest \<Rightarrow>
          if nodeId = cb2_nullNode then
            RayCast_loop k RayCastCallback input v abs_v (st\<lparr>r_stack := rest\<rparr>)
          else
            (case node_at (r_tree st) nodeId of
               None \<Rightarrow> Some (Inl (InvalidNodeAccess nodeId))
             | Some node \<Rightarrow>
                 if cb2TestOverlap (aabb node) (r_segmentAABB st) = False then
                   RayCast_loop k RayCastCallback input v abs_v (st\<lparr>r_stack := rest\<rparr>)
                 else if separation v abs_v (p1 input) (aabb node) > 0 then
                   RayCast_loop k RayCastCallback input v abs_v (st\<lparr>r_stack := rest\<rparr>)
                 else if IsLeaf node then
                   (case RayCastCallback (r_visitor st)
                           \<lparr>p1 = p1 input, p2 = p2 input, maxFraction = r_maxFraction st\<rparr> nodeId of
                      (value, s') \<Rightarrow>
                        if value = 0 then
                          Some (Inr (st\<lparr>r_stack := rest, r_visitor := s',
                                         r_calls := r_calls st @
                                           [(\<lparr>p1 = p1 input, p2 = p2 input,
                                              maxFraction = r_maxFraction st\<rparr>, nodeId, value)]\<rparr>))
                        else if value > 0 then
                          RayCast_loop k RayCastCallback input v abs_v
                            (st\<lparr>r_stack := rest, r_visitor := s',
                                r_calls := r_calls st @
                                  [(\<lparr>p1 = p1 input, p2 = p2 input,
                                     maxFraction = r_maxFraction st\<rparr>, nodeId, value)],
                                r_maxFraction := value,
                                r_segmentAABB := clipped_box input value\<rparr>)
                        else
                          RayCast_loop k RayCastCallback input v abs_v
                            (st\<lparr>r_stack := rest, r_visitor := s',
                                r_calls := r_calls st @
                                  [(\<lparr>p1 = p1 input, p2 = p2 input,
                                     maxFraction = r_maxFraction st\<rparr>, nodeId, value)]\<rparr>))
                 else
                   RayCast_loop k RayCastCallback input v abs_v
                     (st\<lparr>r_stack := child2 node # child1 node # rest\<rparr>)))"

text \<open>
  The state after a call made on the leaf \<open>i\<close> that returned \<open>value\<close> and did not end the
  traversal: what the three branches of the loop body pass on to the next iteration.
\<close>

definition after_call ::
  "cb2RayCastInput \<Rightarrow> 's ray_run \<Rightarrow> int \<Rightarrow> int list \<Rightarrow> real \<Rightarrow> 's \<Rightarrow> 's ray_run"
where
  "after_call input st i rest value s' =
     (if value > 0 then
        st\<lparr>r_stack := rest, r_visitor := s',
           r_calls := r_calls st @
             [(\<lparr>p1 = p1 input, p2 = p2 input, maxFraction = r_maxFraction st\<rparr>, i, value)],
           r_maxFraction := value,
           r_segmentAABB := clipped_box input value\<rparr>
      else
        st\<lparr>r_stack := rest, r_visitor := s',
           r_calls := r_calls st @
             [(\<lparr>p1 = p1 input, p2 = p2 input, maxFraction = r_maxFraction st\<rparr>, i, value)]\<rparr>)"

text \<open>
  The locals computed before the loop: the direction \<open>r\<close> (asserted to be non-zero, then
  normalised), its perpendicular \<open>v\<close>, and the first segment box.
\<close>

definition ray_v :: "cb2RayCastInput \<Rightarrow> Vec2f" where
  "ray_v input = cb2Cross 1 (normalized (vec_sub (p2 input) (p1 input)))"

definition ray_start :: "cb2DynamicTree \<Rightarrow> cb2RayCastInput \<Rightarrow> 's \<Rightarrow> 's ray_run" where
  "ray_start t input s =
     \<lparr>r_tree = t, r_visitor = s, r_stack = [m_root t],
      r_maxFraction = maxFraction input,
      r_segmentAABB = clipped_box input (maxFraction input),
      r_calls = []\<rparr>"

definition RayCast ::
  "nat \<Rightarrow> cb2DynamicTree \<Rightarrow> ('s \<Rightarrow> cb2RayCastInput \<Rightarrow> int \<Rightarrow> real \<times> 's) \<Rightarrow> cb2RayCastInput \<Rightarrow> 's \<Rightarrow>
   (fault + 's ray_run) option"
where
  "RayCast n t RayCastCallback input s =
     (if \<not> (lengthSquared (vec_sub (p2 input) (p1 input)) > 0) then Some (Inl AssertionFailed)
      else RayCast_loop n RayCastCallback input (ray_v input) (cb2Abs (ray_v input))
             (ray_start t input s))"

section \<open>The tree below the root\<close>

text \<open>
  The nodes that the child links reach from an index, as a finite binary tree: \<open>Empty\<close>
  for the null index, \<open>Leaf i\<close> for a pool node with \<^verbatim>\<open>child1 == cb2_nullNode\<close>, and
  \<open>Inner i a b\<close> for any other pool node, with the trees below its two children. A pool
  whose links run in a cycle, or leave the pool, has no such tree. The live leaves
  (the proxies) of a tree state are the leaves of the tree below \<open>m_root\<close>.
\<close>

datatype shape = Empty | Leaf int | Inner int shape shape

inductive tree_shape :: "cb2DynamicTree \<Rightarrow> int \<Rightarrow> shape \<Rightarrow> bool" for t :: cb2DynamicTree where
  tree_null: "tree_shape t cb2_nullNode Empty"
| tree_leaf: "node_at t i = Some node \<Longrightarrow> IsLeaf node \<Longrightarrow> tree_shape t i (Leaf i)"
| tree_inner: "node_at t i = Some node \<Longrightarrow> \<not> IsLeaf node \<Longrightarrow>
     tree_shape t (child1 node) a \<Longrightarrow> tree_shape t (child2 node) b \<Longrightarrow>
     tree_shape t i (Inner i a b)"

fun leaf_ids :: "shape \<Rightarrow> int list" where
  "leaf_ids Empty = []"
| "leaf_ids (Leaf i) = [i]"
| "leaf_ids (Inner i a b) = leaf_ids a @ leaf_ids b"

fun inner_ids :: "shape \<Rightarrow> int list" where
  "inner_ids Empty = []"
| "inner_ids (Leaf i) = []"
| "inner_ids (Inner i a b) = i # inner_ids a @ inner_ids b"

fun steps :: "shape \<Rightarrow> nat" where
  "steps Empty = 1"
| "steps (Leaf i) = 1"
| "steps (Inner i a b) = 1 + steps a + steps b"

text \<open>
  Invariant 1 of the spec, on the tree below the root: the box of every internal node
  contains the box of each child that is a node.
\<close>

definition encloses_child :: "cb2DynamicTree \<Rightarrow> cb2TreeNode \<Rightarrow> int \<Rightarrow> bool" where
  "encloses_child t node c =
     (case node_at t c of None \<Rightarrow> True | Some ch \<Rightarrow> Contains (aabb node) (aabb ch))"

definition encloses :: "cb2DynamicTree \<Rightarrow> shape \<Rightarrow> bool" where
  "encloses t sh =
     list_all (\<lambda>i. case node_at t i of
                     None \<Rightarrow> False
                   | Some node \<Rightarrow> encloses_child t node (child1 node) \<and>
                                  encloses_child t node (child2 node))
       (inner_ids sh)"

definition overlaps_at :: "cb2DynamicTree \<Rightarrow> cb2AABB \<Rightarrow> int \<Rightarrow> bool" where
  "overlaps_at t box i =
     (case node_at t i of None \<Rightarrow> False | Some node \<Rightarrow> cb2TestOverlap (aabb node) box)"

text \<open>The leaves that a query of the tree \<open>sh\<close> reaches, in the order of the stack.\<close>

fun visit :: "cb2DynamicTree \<Rightarrow> cb2AABB \<Rightarrow> shape \<Rightarrow> int list" where
  "visit t box Empty = []"
| "visit t box (Leaf i) = (if overlaps_at t box i then [i] else [])"
| "visit t box (Inner i a b) =
     (if overlaps_at t box i then visit t box b @ visit t box a else [])"

section \<open>Fractions and points along the ray\<close>

text \<open>
  In the words of the claims: the clipped fraction after the returned values \<open>vs\<close> is the
  most recent positive one, or the input's \<^verbatim>\<open>maxFraction\<close> when none was positive.
\<close>

definition clipped_fraction :: "real \<Rightarrow> real list \<Rightarrow> real" where
  "clipped_fraction m0 vs =
     (let positive = filter (\<lambda>v. v > 0) vs in if positive = [] then m0 else last positive)"

definition returned :: "(cb2RayCastInput \<times> int \<times> real) list \<Rightarrow> real list" where
  "returned calls = map (\<lambda>c. snd (snd c)) calls"

definition ray_point :: "cb2RayCastInput \<Rightarrow> real \<Rightarrow> Vec2f" where
  "ray_point input \<tau> = vec_add (p1 input) (vec_scale \<tau> (vec_sub (p2 input) (p1 input)))"

definition inside :: "cb2AABB \<Rightarrow> Vec2f \<Rightarrow> bool" where
  "inside b q \<longleftrightarrow>
     vec_x (lowerBound b) \<le> vec_x q \<and> vec_x q \<le> vec_x (upperBound b) \<and>
     vec_y (lowerBound b) \<le> vec_y q \<and> vec_y q \<le> vec_y (upperBound b)"

text \<open>
  The nearest point of the box \<open>b\<close> along the ray lies beyond the fraction \<open>f\<close>: the ray
  meets the box, and not at any fraction from 0 to \<open>f\<close>.
\<close>

definition beyond :: "cb2RayCastInput \<Rightarrow> cb2AABB \<Rightarrow> real \<Rightarrow> bool" where
  "beyond input b f \<longleftrightarrow>
     (\<exists>\<tau>. 0 \<le> \<tau> \<and> inside b (ray_point input \<tau>)) \<and>
     (\<forall>\<tau>. 0 \<le> \<tau> \<and> \<tau> \<le> f \<longrightarrow> \<not> inside b (ray_point input \<tau>))"

section \<open>An example tree\<close>

definition box :: "real \<Rightarrow> real \<Rightarrow> real \<Rightarrow> real \<Rightarrow> cb2AABB" where
  "box lx ly ux uy =
     \<lparr>lowerBound = \<lparr>vec_x = lx, vec_y = ly\<rparr>, upperBound = \<lparr>vec_x = ux, vec_y = uy\<rparr>\<rparr>"

text \<open>
  Three proxies: 0 with the box [0,0]-[1,1], 2 with [0.5,0.5]-[1.5,1.5] and 1 with
  [5,0]-[6,1]. Node 3 is the parent of 0 and 2, node 4 is the root, and slot 5 is free
  (height -1, on the free list).
\<close>

definition scene :: cb2DynamicTree where
  "scene =
     \<lparr>m_root = 4,
      m_nodes =
        [\<lparr>aabb = box 0 0 1 1, userData = 100, parent = 3,
          child1 = - 1, child2 = - 1, height = 0\<rparr>,
         \<lparr>aabb = box 5 0 6 1, userData = 101, parent = 4,
          child1 = - 1, child2 = - 1, height = 0\<rparr>,
         \<lparr>aabb = box (1 / 2) (1 / 2) (3 / 2) (3 / 2), userData = 102, parent = 3,
          child1 = - 1, child2 = - 1, height = 0\<rparr>,
         \<lparr>aabb = box 0 0 (3 / 2) (3 / 2), userData = 0, parent = 4,
          child1 = 0, child2 = 2, height = 1\<rparr>,
         \<lparr>aabb = box 0 0 6 (3 / 2), userData = 0, parent = - 1,
          child1 = 1, child2 = 3, height = 2\<rparr>,
         \<lparr>aabb = box 0 0 0 0, userData = 0, parent = - 1,
          child1 = - 1, child2 = - 1, height = - 1\<rparr>],
      m_nodeCount = 5, m_nodeCapacity = 6, m_freeList = 5, m_path = 0,
      m_insertionCount = 3\<rparr>"

definition scene_shape :: shape where
  "scene_shape = Inner 4 (Leaf 1) (Inner 3 (Leaf 0) (Leaf 2))"

text \<open>The ray from (x0, 0.75) to (x0 + 10, 0.75), with the maximal fraction \<open>m\<close>.\<close>

definition scene_ray :: "real \<Rightarrow> real \<Rightarrow> cb2RayCastInput" where
  "scene_ray x0 m = \<lparr>p1 = \<lparr>vec_x = x0, vec_y = 3 / 4\<rparr>, p2 = \<lparr>vec_x = x0 + 10, vec_y = 3 / 4\<rparr>,
                    maxFraction = m\<rparr>"

section \<open>The contact registry\<close>

text \<open>
  Modelled from the spec: \<^verbatim>\<open>cb2Shape.h\<close> is not among the sources. Its shape kinds are
  the four that \<^verbatim>\<open>InitializeRegisters\<close> names; \<^verbatim>\<open>e_typeCount\<close> is their number, so the
  range assertions of \<^verbatim>\<open>AddType\<close> and \<^verbatim>\<open>Create\<close> hold of every value of the type.
\<close>

datatype Type = e_circle | e_edge | e_polygon | e_chain

text \<open>
  The creation and destruction functions that \<^verbatim>\<open>InitializeRegisters\<close> registers, by
  name: the table holds pointers to them, and a null pointer is \<open>None\<close>.
\<close>

datatype cb2ContactCreateFcn =
    cb2CircleContact_Create
  | cb2PolygonAndCircleContact_Create
  | cb2PolygonContact_Create
  | cb2EdgeAndCircleContact_Create
  | cb2EdgeAndPolygonContact_Create
  | cb2ChainAndCircleContact_Create
  | cb2ChainAndPolygonContact_Create

datatype cb2ContactDestroyFcn =
    cb2CircleContact_Destroy
  | cb2PolygonAndCircleContact_Destroy
  | cb2PolygonContact_Destroy
  | cb2EdgeAndCircleContact_Destroy
  | cb2EdgeAndPolygonContact_Destroy
  | cb2ChainAndCircleContact_Destroy
  | cb2ChainAndPolygonContact_Destroy

record cb2ContactRegister =
  createFcn :: "cb2ContactCreateFcn option"
  destroyFcn :: "cb2ContactDestroyFcn option"
  primary :: bool

type_synonym registers = "Type \<Rightarrow> Type \<Rightarrow> cb2ContactRegister"

text \<open>The two static members of \<^verbatim>\<open>cb2Contact\<close>, and their values at program start.\<close>

record contact_statics =
  s_registers :: registers
  s_initialized :: bool

definition zero_registers :: registers where
  "zero_registers = (\<lambda>type1 type2. \<lparr>createFcn = None, destroyFcn = None, primary = False\<rparr>)"

definition statics_at_start :: contact_statics where
  "statics_at_start = \<lparr>s_registers = zero_registers, s_initialized = False\<rparr>"

definition set_register :: "registers \<Rightarrow> Type \<Rightarrow> Type \<Rightarrow> cb2ContactRegister \<Rightarrow> registers" where
  "set_register regs type1 type2 reg = regs(type1 := (regs type1)(type2 := reg))"

definition AddType ::
  "cb2ContactCreateFcn \<Rightarrow> cb2ContactDestroyFcn \<Rightarrow> Type \<Rightarrow> Type \<Rightarrow> registers \<Rightarrow> registers"
where
  "AddType create destroy type1 type2 regs =
     (let regs1 = set_register regs type1 type2
                    \<lparr>createFcn = Some create, destroyFcn = Some destroy, primary = True\<rparr>
      in if type1 \<noteq> type2 then
           set_register regs1 type2 type1
             \<lparr>createFcn = Some create, destroyFcn = Some destroy, primary = False\<rparr>
         else regs1)"

definition InitializeRegisters :: "registers \<Rightarrow> registers" where
  "InitializeRegisters regs =
     AddType cb2ChainAndPolygonContact_Create cb2ChainAndPolygonContact_Destroy e_chain e_polygon
    (AddType cb2ChainAndCircleContact_Create cb2ChainAndCircleContact_Destroy e_chain e_circle
    (AddType cb2EdgeAndPolygonContact_Create cb2EdgeAndPolygonContact_Destroy e_edge e_polygon
    (AddType cb2EdgeAndCircleContact_Create cb2EdgeAndCircleContact_Destroy e_edge e_circle
    (AddType cb2PolygonContact_Create cb2PolygonContact_Destroy e_polygon e_polygon
    (AddType cb2PolygonAndCircleContact_Create cb2PolygonAndCircleContact_Destroy e_polygon e_circle
    (AddType cb2CircleContact_Create cb2CircleContact_Destroy e_circle e_circle regs))))))"

text \<open>
  What \<^verbatim>\<open>Create\<close> returns: the null pointer, or the result of one call of a creation
  function, recorded as the function and the arguments it was given, in their order. The
  fixtures are values of any type \<open>'f\<close>, with \<^verbatim>\<open>GetType\<close> given; the allocator is passed
  through.
\<close>

datatype ('f, 'al) contact = NULL | Created cb2ContactCreateFcn 'f int 'f int 'al

definition Create ::
  "('f \<Rightarrow> Type) \<Rightarrow> contact_statics \<Rightarrow> 'f \<Rightarrow> int \<Rightarrow> 'f \<Rightarrow> int \<Rightarrow> 'al \<Rightarrow>
   ('f, 'al) contact \<times> contact_statics"
where
  "Create GetType st fixtureA indexA fixtureB indexB allocator =
     (let st1 = (if s_initialized st = False
                 then st\<lparr>s_registers := InitializeRegisters (s_registers st),
                        s_initialized := True\<rparr>
                 else st);
          type1 = GetType fixtureA;
          type2 = GetType fixtureB
      in case createFcn (s_registers st1 type1 type2) of
           Some create \<Rightarrow>
             if primary (s_registers st1 type1 type2)
             then (Created create fixtureA indexA fixtureB indexB allocator, st1)
             else (Created create fixtureB indexB fixtureA indexA allocator, st1)
         | None \<Rightarrow> (NULL, st1))"

text \<open>
  The states of the statics that a program reaches: the start, and the state that the
  first call of \<^verbatim>\<open>Create\<close> leaves and every later call keeps.
\<close>

definition statics_ready :: contact_statics where
  "statics_ready = \<lparr>s_registers = InitializeRegisters zero_registers, s_initialized = True\<rparr>"

section \<open>Invariants of the ray cast loop\<close>

text \<open>
  The calls recorded so far agree with the clipped fraction: the loop's \<^verbatim>\<open>maxFraction\<close>
  is the clipped fraction after all the values returned, and each call was handed the
  endpoints of the input and the clipped fraction after the values returned before it.
\<close>

definition inputs_ok :: "cb2RayCastInput \<Rightarrow> 's ray_run \<Rightarrow> bool" where
  "inputs_ok inp st \<longleftrightarrow>
     r_maxFraction st = clipped_fraction (maxFraction inp) (returned (r_calls st)) \<and>
     (\<forall>j < length (r_calls st). fst (r_calls st ! j) =
        \<lparr>p1 = p1 inp, p2 = p2 inp,
         maxFraction = clipped_fraction (maxFraction inp) (returned (take j (r_calls st)))\<rparr>)"

text \<open>
  The calls recorded so far were made on nodes whose box passed the box test against the
  segment box for the fraction they were handed, and the loop's segment box is the
  segment box for its \<^verbatim>\<open>maxFraction\<close>.
\<close>

definition hits_ok :: "cb2RayCastInput \<Rightarrow> cb2DynamicTree \<Rightarrow> 's ray_run \<Rightarrow> bool" where
  "hits_ok inp t st \<longleftrightarrow>
     r_tree st = t \<and>
     r_segmentAABB st = clipped_box inp (r_maxFraction st) \<and>
     (\<forall>c \<in> set (r_calls st). \<exists>node.
        node_at t (fst (snd c)) = Some node \<and>
        cb2TestOverlap (aabb node) (clipped_box inp (maxFraction (fst c))))"

section \<open>Evaluating the example\<close>

lemma sqrt_100: "sqrt 100 = 10"
  using real_sqrt_abs [of 10] by simp

lemmas scene_eval =
  Query_def RayCast_def ray_start_def ray_v_def scene_def scene_ray_def node_at_def box_def
  cb2TestOverlap_def vec_sub_def vec_add_def vec_scale_def IsLeaf_def cb2_nullNode_def
  clipped_box_def segment_box_def cb2Min_def cb2Max_def cb2Abs_def cb2Cross_def cb2Dot_def
  separation_def GetCenter_def GetExtents_def lengthSquared_def normalized_def sqrt_100

section \<open>The traversals only read the tree\<close>

lemma Query_loop_tree:
  "Query_loop n cb b st = Some (Inr st') \<Longrightarrow> q_tree st' = q_tree st"
  by (induction n arbitrary: st) (auto split: list.splits if_splits option.splits prod.splits)

lemma RayCast_loop_tree:
  "RayCast_loop n cb inp v av st = Some (Inr st') \<Longrightarrow> r_tree st' = r_tree st"
  by (induction n arbitrary: st) (auto split: list.splits if_splits option.splits prod.splits)

text \<open>
  Claim C7. \<^verbatim>\<open>Query\<close> and \<^verbatim>\<open>RayCast\<close> never modify the tree: whatever the tree, the query
  box, the ray input and the visitor (so whatever values its callbacks return), the tree
  that a returning traversal leaves is the tree it was given: root, pool (every node's
  box, user data, parent/next, children and height), free list head and counters.
\<close>

theorem traversals_leave_tree_unchanged:
  "(Query n t cb qbox s = Some (Inr qr) \<longrightarrow> q_tree qr = t) \<and>
   (RayCast m t rcb input s' = Some (Inr rr) \<longrightarrow> r_tree rr = t)"
  using Query_loop_tree [of n cb qbox _ qr] RayCast_loop_tree [of m rcb input _ _ _ rr]
  by (auto simp: Query_def RayCast_def ray_start_def split: if_splits)

theorem traversals_leave_tree_unchanged_witness:
  "\<exists>qr rr. Query 5 scene (\<lambda>s i. (True, s)) (box 0 0 2 2) () = Some (Inr qr) \<and> q_tree qr = scene \<and>
     RayCast 5 scene (\<lambda>s inp i. (- 1, s)) (scene_ray (- 1) 1) () = Some (Inr rr) \<and> r_tree rr = scene"
proof -
  obtain qr where q: "Query 5 scene (\<lambda>s i. (True, s)) (box 0 0 2 2) () = Some (Inr qr)"
    by (simp add: scene_eval eval_nat_numeral)
  obtain rr where r: "RayCast 5 scene (\<lambda>s inp i. (- 1, s)) (scene_ray (- 1) 1) () = Some (Inr rr)"
    by (simp add: scene_eval eval_nat_numeral)
  from q r traversals_leave_tree_unchanged
    [of 5 scene "\<lambda>s i. (True, s)" "box 0 0 2 2" "()" qr 5 "\<lambda>s inp i. (- 1, s)" "scene_ray (- 1) 1" "()" rr]
  show ?thesis by blast
qed

section \<open>The empty tree and null indices\<close>

text \<open>
  Claim C9. On the empty tree (root equal to the null index) \<^verbatim>\<open>Query\<close>, and \<^verbatim>\<open>RayCast\<close>
  on a ray of non-zero length, return after one iteration with no callback made; and in
  both loops a null index on top of the stack is popped and skipped, whatever the pool
  holds, so without a read of the pool.
\<close>

theorem empty_tree_and_null_indices:
  "(m_root t = cb2_nullNode \<longrightarrow>
      Query (Suc n) t cb qbox s =
        Some (Inr \<lparr>q_tree = t, q_visitor = s, q_stack = [], q_calls = []\<rparr>)) \<and>
   (m_root t = cb2_nullNode \<and> lengthSquared (vec_sub (p2 input) (p1 input)) > 0 \<longrightarrow>
      RayCast (Suc n) t rcb input s' = Some (Inr ((ray_start t input s')\<lparr>r_stack := []\<rparr>))) \<and>
   Query_loop (Suc n) cb qbox (st\<lparr>q_stack := cb2_nullNode # rest\<rparr>) =
     Query_loop n cb qbox (st\<lparr>q_stack := rest\<rparr>) \<and>
   RayCast_loop (Suc n) rcb input v abs_v (rt\<lparr>r_stack := cb2_nullNode # rest\<rparr>) =
     RayCast_loop n rcb input v abs_v (rt\<lparr>r_stack := rest\<rparr>)"
  by (cases n) (simp_all add: Query_def RayCast_def ray_start_def)

theorem empty_tree_and_null_indices_witness:
  "Query 1 (scene\<lparr>m_root := - 1\<rparr>) (\<lambda>s i. (True, s)) (box 0 0 2 2) () =
     Some (Inr \<lparr>q_tree = scene\<lparr>m_root := - 1\<rparr>, q_visitor = (), q_stack = [], q_calls = []\<rparr>) \<and>
   RayCast 1 (scene\<lparr>m_root := - 1\<rparr>) (\<lambda>s inp i. (1, s)) (scene_ray (- 1) 1) () =
     Some (Inr ((ray_start (scene\<lparr>m_root := - 1\<rparr>) (scene_ray (- 1) 1) ())\<lparr>r_stack := []\<rparr>))"
  using empty_tree_and_null_indices
    [of "scene\<lparr>m_root := - 1\<rparr>" 0 "\<lambda>s i. (True, s)" "box 0 0 2 2" "()" "scene_ray (- 1) 1"
        "\<lambda>s inp i. (1, s)" "()"]
  by (simp add: cb2_nullNode_def scene_ray_def lengthSquared_def vec_sub_def)

section \<open>The proxy getters\<close>

text \<open>
  Claim C5, as the code has it. \<^verbatim>\<open>GetUserData\<close> and \<^verbatim>\<open>GetFatAABB\<close> fail their assertion
  for every proxy id outside the pool range [0, capacity). For an id inside the range
  (of a pool as large as its capacity says) they return what the slot stores, whether the
  slot is live or free.
\<close>

theorem getters_check_the_range_only:
  "(\<not> (0 \<le> proxyId \<and> proxyId < m_nodeCapacity t) \<longrightarrow>
      GetUserData t proxyId = Inl AssertionFailed \<and> GetFatAABB t proxyId = Inl AssertionFailed) \<and>
   (0 \<le> proxyId \<and> proxyId < m_nodeCapacity t \<and> m_nodeCapacity t = int (length (m_nodes t)) \<longrightarrow>
      GetUserData t proxyId = Inr (userData (m_nodes t ! nat proxyId)) \<and>
      GetFatAABB t proxyId = Inr (aabb (m_nodes t ! nat proxyId)))"
  by (simp add: GetUserData_def GetFatAABB_def node_at_def)

theorem getters_check_the_range_only_witness:
  "GetUserData scene 6 = Inl AssertionFailed \<and> GetFatAABB scene (- 1) = Inl AssertionFailed \<and>
   GetUserData scene 1 = Inr 101 \<and> GetFatAABB scene 1 = Inr (box 5 0 6 1)"
  using getters_check_the_range_only [of 6 scene] getters_check_the_range_only [of "- 1" scene]
    getters_check_the_range_only [of 1 scene]
  by (simp add: scene_def)

text \<open>
  Slot 5 of the example is free (height -1, head of the free list), and both getters
  return its stored values.
\<close>

theorem getters_accept_freed_slot:
  "height (m_nodes scene ! 5) = - 1 \<and> m_freeList scene = 5 \<and>
   GetUserData scene 5 = Inr 0 \<and> GetFatAABB scene 5 = Inr (box 0 0 0 0)"
  by (simp add: scene_def GetUserData_def GetFatAABB_def node_at_def)

section \<open>Query calls the visitor on leaves and stops on false\<close>

lemma Query_loop_calls_leaves:
  "Query_loop n cb b st = Some (Inr r) \<Longrightarrow>
   \<forall>c \<in> set (q_calls st). \<exists>node. node_at (q_tree st) (fst c) = Some node \<and> IsLeaf node \<Longrightarrow>
   \<forall>c \<in> set (q_calls r). \<exists>node. node_at (q_tree st) (fst c) = Some node \<and> IsLeaf node"
proof (induction n arbitrary: st)
  case 0
  then show ?case by (auto split: list.splits)
next
  case (Suc n)
  show ?case
  proof (cases "q_stack st")
    case Nil
    with Suc.prems show ?thesis by auto
  next
    case (Cons i rest)
    show ?thesis
      using Suc.prems Cons Suc.IH [of "st\<lparr>q_stack := rest\<rparr>"]
        Suc.IH [of "st\<lparr>q_stack := child2 nd # child1 nd # rest\<rparr>" for nd]
        Suc.IH [of "st\<lparr>q_stack := rest, q_visitor := s', q_calls := q_calls st @ [(i, True)]\<rparr>" for s']
      by (auto split: if_splits option.splits prod.splits)
  qed
qed

lemma Query_loop_false_is_last:
  "Query_loop n cb b st = Some (Inr r) \<Longrightarrow>
   \<forall>c \<in> set (q_calls st). snd c \<Longrightarrow>
   \<forall>c \<in> set (butlast (q_calls r)). snd c"
proof (induction n arbitrary: st)
  case 0
  then show ?case by (auto split: list.splits dest: in_set_butlastD)
next
  case (Suc n)
  show ?case
  proof (cases "q_stack st")
    case Nil
    with Suc.prems show ?thesis by (auto dest: in_set_butlastD)
  next
    case (Cons i rest)
    show ?thesis
      using Suc.prems Cons Suc.IH [of "st\<lparr>q_stack := rest\<rparr>"]
        Suc.IH [of "st\<lparr>q_stack := child2 nd # child1 nd # rest\<rparr>" for nd]
        Suc.IH [of "st\<lparr>q_stack := rest, q_visitor := s', q_calls := q_calls st @ [(i, True)]\<rparr>" for s']
      by (auto split: if_splits option.splits prod.splits)
  qed
qed

text \<open>
  Claim C4. In a returning run of \<^verbatim>\<open>Query\<close>, every call of the overlap callback passed
  the index of a leaf node of the pool (never an internal node), and every call but the
  last returned true. When the callback returns false on a leaf, the loop returns at
  once, whatever is left on the stack and however many iterations are still allowed:
  the rest of the stack stays unprocessed and no further call is made.
\<close>

theorem query_calls_leaves_and_stops_on_false:
  "(Query n t cb qbox s = Some (Inr r) \<longrightarrow>
      (\<forall>c \<in> set (q_calls r). \<exists>node. node_at t (fst c) = Some node \<and> IsLeaf node) \<and>
      (\<forall>c \<in> set (butlast (q_calls r)). snd c)) \<and>
   (node_at (q_tree st) i = Some node \<and> IsLeaf node \<and> cb2TestOverlap (aabb node) qbox \<and>
    cb (q_visitor st) i = (False, s') \<longrightarrow>
      Query_loop (Suc k) cb qbox (st\<lparr>q_stack := i # rest\<rparr>) =
        Some (Inr (st\<lparr>q_stack := rest, q_visitor := s', q_calls := q_calls st @ [(i, False)]\<rparr>)))"
proof (intro conjI impI)
  assume run: "Query n t cb qbox s = Some (Inr r)"
  show "\<forall>c \<in> set (q_calls r). \<exists>node. node_at t (fst c) = Some node \<and> IsLeaf node"
    using Query_loop_calls_leaves [OF run [unfolded Query_def]] by simp
  show "\<forall>c \<in> set (butlast (q_calls r)). snd c"
    using Query_loop_false_is_last [OF run [unfolded Query_def]] by simp
next
  assume a: "node_at (q_tree st) i = Some node \<and> IsLeaf node \<and> cb2TestOverlap (aabb node) qbox \<and>
    cb (q_visitor st) i = (False, s')"
  then have "i \<noteq> cb2_nullNode"
    by (auto simp: node_at_def cb2_nullNode_def split: if_splits)
  with a show "Query_loop (Suc k) cb qbox (st\<lparr>q_stack := i # rest\<rparr>) =
        Some (Inr (st\<lparr>q_stack := rest, q_visitor := s', q_calls := q_calls st @ [(i, False)]\<rparr>))"
    by simp
qed

theorem query_calls_leaves_and_stops_on_false_witness:
  "Query 5 scene (\<lambda>s i. (i \<noteq> 2, s)) (box 0 0 2 2) () =
     Some (Inr \<lparr>q_tree = scene, q_visitor = (), q_stack = [0, 1], q_calls = [(2, False)]\<rparr>) \<and>
   (\<exists>node. node_at scene 2 = Some node \<and> IsLeaf node) \<and>
   Query_loop 1 (\<lambda>s i. (i \<noteq> 2, s)) (box 0 0 2 2)
       \<lparr>q_tree = scene, q_visitor = (), q_stack = [2, 0, 1], q_calls = []\<rparr> =
     Some (Inr \<lparr>q_tree = scene, q_visitor = (), q_stack = [0, 1], q_calls = [(2, False)]\<rparr>)"
proof -
  have run: "Query 5 scene (\<lambda>s i. (i \<noteq> 2, s)) (box 0 0 2 2) () =
     Some (Inr \<lparr>q_tree = scene, q_visitor = (), q_stack = [0, 1], q_calls = [(2, False)]\<rparr>)"
    by (simp add: scene_eval eval_nat_numeral)
  have node: "node_at scene 2 = Some \<lparr>aabb = box (1 / 2) (1 / 2) (3 / 2) (3 / 2), userData = 102,
      parent = 3, child1 = - 1, child2 = - 1, height = 0\<rparr>"
    by (simp add: scene_def node_at_def)
  show ?thesis
    using run node
      query_calls_leaves_and_stops_on_false
        [of 5 scene "\<lambda>s i. (i \<noteq> 2, s)" "box 0 0 2 2" "()"
            "\<lparr>q_tree = scene, q_visitor = (), q_stack = [0, 1], q_calls = [(2, False)]\<rparr>"
            "\<lparr>q_tree = scene, q_visitor = (), q_stack = [], q_calls = []\<rparr>" 2
            "\<lparr>aabb = box (1 / 2) (1 / 2) (3 / 2) (3 / 2), userData = 102,
              parent = 3, child1 = - 1, child2 = - 1, height = 0\<rparr>" "()" 0 "[0, 1]"]
    by (simp add: IsLeaf_def cb2_nullNode_def box_def cb2TestOverlap_def vec_sub_def)
qed

section \<open>Creating contacts from the registry\<close>

lemmas registry_eval =
  InitializeRegisters_def AddType_def set_register_def zero_registers_def Let_def

lemma registry_table:
  "InitializeRegisters zero_registers e_circle e_circle =
     \<lparr>createFcn = Some cb2CircleContact_Create, destroyFcn = Some cb2CircleContact_Destroy, primary = True\<rparr>"
  "InitializeRegisters zero_registers e_polygon e_circle =
     \<lparr>createFcn = Some cb2PolygonAndCircleContact_Create, destroyFcn = Some cb2PolygonAndCircleContact_Destroy, primary = True\<rparr>"
  "InitializeRegisters zero_registers e_circle e_polygon =
     \<lparr>createFcn = Some cb2PolygonAndCircleContact_Create, destroyFcn = Some cb2PolygonAndCircleContact_Destroy, primary = False\<rparr>"
  "InitializeRegisters zero_registers e_polygon e_polygon =
     \<lparr>createFcn = Some cb2PolygonContact_Create, destroyFcn = Some cb2PolygonContact_Destroy, primary = True\<rparr>"
  "InitializeRegisters zero_registers e_edge e_circle =
     \<lparr>createFcn = Some cb2EdgeAndCircleContact_Create, destroyFcn = Some cb2EdgeAndCircleContact_Destroy, primary = True\<rparr>"
  "InitializeRegisters zero_registers e_circle e_edge =
     \<lparr>createFcn = Some cb2EdgeAndCircleContact_Create, destroyFcn = Some cb2EdgeAndCircleContact_Destroy, primary = False\<rparr>"
  "InitializeRegisters zero_registers e_edge e_polygon =
     \<lparr>createFcn = Some cb2EdgeAndPolygonContact_Create, destroyFcn = Some cb2EdgeAndPolygonContact_Destroy, primary = True\<rparr>"
  "InitializeRegisters zero_registers e_polygon e_edge =
     \<lparr>createFcn = Some cb2EdgeAndPolygonContact_Create, destroyFcn = Some cb2EdgeAndPolygonContact_Destroy, primary = False\<rparr>"
  "InitializeRegisters zero_registers e_chain e_circle =
     \<lparr>createFcn = Some cb2ChainAndCircleContact_Create, destroyFcn = Some cb2ChainAndCircleContact_Destroy, primary = True\<rparr>"
  "InitializeRegisters zero_registers e_circle e_chain =
     \<lparr>createFcn = Some cb2ChainAndCircleContact_Create, destroyFcn = Some cb2ChainAndCircleContact_Destroy, primary = False\<rparr>"
  "InitializeRegisters zero_registers e_chain e_polygon =
     \<lparr>createFcn = Some cb2ChainAndPolygonContact_Create, destroyFcn = Some cb2ChainAndPolygonContact_Destroy, primary = True\<rparr>"
  "InitializeRegisters zero_registers e_polygon e_chain =
     \<lparr>createFcn = Some cb2ChainAndPolygonContact_Create, destroyFcn = Some cb2ChainAndPolygonContact_Destroy, primary = False\<rparr>"
  "InitializeRegisters zero_registers e_edge e_edge = \<lparr>createFcn = None, destroyFcn = None, primary = False\<rparr>"
  "InitializeRegisters zero_registers e_edge e_chain = \<lparr>createFcn = None, destroyFcn = None, primary = False\<rparr>"
  "InitializeRegisters zero_registers e_chain e_edge = \<lparr>createFcn = None, destroyFcn = None, primary = False\<rparr>"
  "InitializeRegisters zero_registers e_chain e_chain = \<lparr>createFcn = None, destroyFcn = None, primary = False\<rparr>"
  by (simp_all add: registry_eval)

lemma Create_ready:
  "st = statics_at_start \<or> st = statics_ready \<Longrightarrow>
   Create GetType st fA iA fB iB al =
     ((case createFcn (InitializeRegisters zero_registers (GetType fA) (GetType fB)) of
         Some create \<Rightarrow>
           if primary (InitializeRegisters zero_registers (GetType fA) (GetType fB))
           then Created create fA iA fB iB al
           else Created create fB iB fA iA al
       | None \<Rightarrow> NULL), statics_ready)"
  by (auto simp: Create_def statics_at_start_def statics_ready_def Let_def split: option.splits)

text \<open>
  Claim C10, as the code has it. From either reachable state of the statics, and for
  fixtures A and B with indices and an allocator: when the table has no creation
  function for the pair of their shape types (the pair is then edge-edge, edge-chain or
  chain-chain), \<^verbatim>\<open>Create\<close> returns NULL for both orders of the arguments. When it has
  one and the two types differ, both orders call that function with the same arguments,
  the fixture of the primary type first. When the two types are equal (circle-circle,
  polygon-polygon), each order calls that function with its fixtures in the order given.
\<close>

theorem create_order_by_primary_flag:
  "st = statics_at_start \<or> st = statics_ready \<longrightarrow>
   (case createFcn (InitializeRegisters zero_registers (GetType fA) (GetType fB)) of
      None \<Rightarrow>
        (GetType fA, GetType fB) \<in>
          {(e_edge, e_edge), (e_edge, e_chain), (e_chain, e_edge), (e_chain, e_chain)} \<and>
        fst (Create GetType st fA iA fB iB al) = NULL \<and>
        fst (Create GetType st fB iB fA iA al) = NULL
    | Some create \<Rightarrow>
        if GetType fA \<noteq> GetType fB then
          fst (Create GetType st fA iA fB iB al) = fst (Create GetType st fB iB fA iA al) \<and>
          fst (Create GetType st fA iA fB iB al) =
            (if primary (InitializeRegisters zero_registers (GetType fA) (GetType fB))
             then Created create fA iA fB iB al else Created create fB iB fA iA al)
        else
          fst (Create GetType st fA iA fB iB al) = Created create fA iA fB iB al \<and>
          fst (Create GetType st fB iB fA iA al) = Created create fB iB fA iA al)"
proof (intro impI)
  assume st: "st = statics_at_start \<or> st = statics_ready"
  show "case createFcn (InitializeRegisters zero_registers (GetType fA) (GetType fB)) of
      None \<Rightarrow>
        (GetType fA, GetType fB) \<in>
          {(e_edge, e_edge), (e_edge, e_chain), (e_chain, e_edge), (e_chain, e_chain)} \<and>
        fst (Create GetType st fA iA fB iB al) = NULL \<and>
        fst (Create GetType st fB iB fA iA al) = NULL
    | Some create \<Rightarrow>
        if GetType fA \<noteq> GetType fB then
          fst (Create GetType st fA iA fB iB al) = fst (Create GetType st fB iB fA iA al) \<and>
          fst (Create GetType st fA iA fB iB al) =
            (if primary (InitializeRegisters zero_registers (GetType fA) (GetType fB))
             then Created create fA iA fB iB al else Created create fB iB fA iA al)
        else
          fst (Create GetType st fA iA fB iB al) = Created create fA iA fB iB al \<and>
          fst (Create GetType st fB iB fA iA al) = Created create fB iB fA iA al"
    unfolding Create_ready [OF st]
    by (cases "GetType fA"; cases "GetType fB"; simp add: registry_table)
qed

text \<open>
  Fixture 1 is a polygon and fixture 2 a circle; fixtures 5 and 6 are edges; fixtures 8
  and 9 are polygons.
\<close>

theorem create_order_by_primary_flag_witness:
  "Create (\<lambda>f. if f = 1 then e_polygon else e_circle) statics_at_start (2::nat) 7 1 8 () =
     (Created cb2PolygonAndCircleContact_Create 1 8 2 7 (), statics_ready) \<and>
   fst (Create (\<lambda>f. if f = 1 then e_polygon else e_circle) statics_at_start (1::nat) 8 2 7 ()) =
     Created cb2PolygonAndCircleContact_Create 1 8 2 7 () \<and>
   fst (Create (\<lambda>f. e_edge) statics_ready (5::nat) 0 6 0 ()) = NULL \<and>
   fst (Create (\<lambda>f. e_polygon) statics_ready (8::nat) 0 9 1 ()) =
     Created cb2PolygonContact_Create 8 0 9 1 ()"
  using create_order_by_primary_flag
      [of statics_at_start "\<lambda>f. if f = 1 then e_polygon else e_circle" "2::nat" 1 7 8 "()"]
    create_order_by_primary_flag [of statics_ready "\<lambda>f. e_edge" "5::nat" 6 0 0 "()"]
    create_order_by_primary_flag [of statics_ready "\<lambda>f. e_polygon" "8::nat" 9 0 1 "()"]
  by (simp add: Create_ready registry_table)

text \<open>
  Two circles, fixtures 3 and 4: the pair is registered, and the two orders of the
  arguments reach the creation function with the fixtures in different orders.
\<close>

theorem create_same_type_keeps_given_order:
  "fst (Create (\<lambda>f. e_circle) statics_at_start (3::nat) 0 4 0 ()) =
     Created cb2CircleContact_Create 3 0 4 0 () \<and>
   fst (Create (\<lambda>f. e_circle) statics_at_start (4::nat) 0 3 0 ()) =
     Created cb2CircleContact_Create 4 0 3 0 () \<and>
   createFcn (InitializeRegisters zero_registers e_circle e_circle) = Some cb2CircleContact_Create"
  by (simp add: Create_ready registry_table)

section \<open>The assertion of RayCast\<close>

lemma lengthSquared_same_point: "lengthSquared (vec_sub a a) = 0"
  by (simp add: lengthSquared_def vec_sub_def)

lemma RayCast_loop_no_assertion:
  "RayCast_loop n cb inp v av st \<noteq> Some (Inl AssertionFailed)"
  by (induction n arbitrary: st) (auto split: list.splits if_splits option.splits prod.splits)

lemma RayCast_assertion_test:
  "RayCast n t rcb input s = Some (Inl AssertionFailed) \<longleftrightarrow>
   \<not> lengthSquared (vec_sub (p2 input) (p1 input)) > 0"
  using RayCast_loop_no_assertion
    [of n rcb input "ray_v input" "cb2Abs (ray_v input)" "ray_start t input s"]
  by (simp add: RayCast_def)

text \<open>
  Claim C6, as the code has it. \<^verbatim>\<open>RayCast\<close> fails its assertion, before the loop and so
  before any callback, on every ray whose direction has length zero (\<open>p1 = p2\<close>). The
  maximal fraction is not tested: the assertion fails exactly when the source's own test
  \<^verbatim>\<open>r.lengthSquared() > 0.0f\<close> of the direction fails, so with the same outcome
  whatever the maximal fraction is, non-positive ones included.
\<close>

theorem raycast_asserts_on_zero_direction:
  "(p1 input = p2 input \<longrightarrow> RayCast n t rcb input s = Some (Inl AssertionFailed)) \<and>
   (RayCast n t rcb input s = Some (Inl AssertionFailed) \<longleftrightarrow>
      \<not> lengthSquared (vec_sub (p2 input) (p1 input)) > 0) \<and>
   (RayCast n t rcb (input\<lparr>maxFraction := m\<rparr>) s = Some (Inl AssertionFailed) \<longleftrightarrow>
      RayCast n t rcb input s = Some (Inl AssertionFailed))"
proof (intro conjI impI)
  assume "p1 input = p2 input"
  then have "lengthSquared (vec_sub (p2 input) (p1 input)) = 0"
    by (simp add: lengthSquared_same_point)
  then show "RayCast n t rcb input s = Some (Inl AssertionFailed)"
    by (simp add: RayCast_assertion_test)
next
  show "RayCast n t rcb input s = Some (Inl AssertionFailed) \<longleftrightarrow>
      \<not> lengthSquared (vec_sub (p2 input) (p1 input)) > 0"
    by (rule RayCast_assertion_test)
next
  show "RayCast n t rcb (input\<lparr>maxFraction := m\<rparr>) s = Some (Inl AssertionFailed) \<longleftrightarrow>
      RayCast n t rcb input s = Some (Inl AssertionFailed)"
    by (simp add: RayCast_assertion_test)
qed

theorem raycast_asserts_on_zero_direction_witness:
  "RayCast 5 scene (\<lambda>s inp i. (1, s)) ((scene_ray 0 1)\<lparr>p2 := \<lparr>vec_x = 0, vec_y = 3 / 4\<rparr>\<rparr>) () =
     Some (Inl AssertionFailed) \<and>
   RayCast 5 scene (\<lambda>s inp i. (1, s)) ((scene_ray 0 1)\<lparr>maxFraction := - 1\<rparr>) () \<noteq>
     Some (Inl AssertionFailed)"
  using raycast_asserts_on_zero_direction
      [of "(scene_ray 0 1)\<lparr>p2 := \<lparr>vec_x = 0, vec_y = 3 / 4\<rparr>\<rparr>" 5 scene "\<lambda>s inp i. (1, s)" "()" 1]
    raycast_asserts_on_zero_direction [of "scene_ray 0 1" 5 scene "\<lambda>s inp i. (1, s)" "()" "- 1"]
  by (simp add: scene_ray_def lengthSquared_def vec_sub_def)

text \<open>
  With the maximal fraction 0, and with the maximal fraction -1/4, the traversal of the
  example runs and calls the visitor.
\<close>

theorem raycast_runs_with_nonpositive_fraction:
  "maxFraction (scene_ray (1 / 4) 0) \<le> 0 \<and>
   RayCast 5 scene (\<lambda>s inp i. (- 1, s)) (scene_ray (1 / 4) 0) () =
     Some (Inr \<lparr>r_tree = scene, r_visitor = (), r_stack = [], r_maxFraction = 0,
                r_segmentAABB = box (1 / 4) (3 / 4) (1 / 4) (3 / 4),
                r_calls = [(scene_ray (1 / 4) 0, 0, - 1)]\<rparr>) \<and>
   maxFraction (scene_ray 2 (- 1 / 4)) \<le> 0 \<and>
   RayCast 5 scene (\<lambda>s inp i. (- 1, s)) (scene_ray 2 (- 1 / 4)) () =
     Some (Inr \<lparr>r_tree = scene, r_visitor = (), r_stack = [], r_maxFraction = - 1 / 4,
                r_segmentAABB = box (- 1 / 2) (3 / 4) 2 (3 / 4),
                r_calls = [(scene_ray 2 (- 1 / 4), 2, - 1), (scene_ray 2 (- 1 / 4), 0, - 1)]\<rparr>)"
  by (simp add: scene_eval eval_nat_numeral)

section \<open>How RayCast reads the value returned by the visitor\<close>

lemma clipped_box_shrinks:
  "0 \<le> value \<Longrightarrow> value \<le> m \<Longrightarrow> Contains (clipped_box input m) (clipped_box input value)"
proof -
  assume v: "0 \<le> value" "value \<le> m"
  have *: "min p (p + m * d) \<le> min p (p + value * d) \<and> max p (p + value * d) \<le> max p (p + m * d)"
    for p d :: real
  proof (cases "0 \<le> d")
    case True
    with v have "0 \<le> value * d" "value * d \<le> m * d"
      by (simp_all add: mult_right_mono)
    then show ?thesis by (auto simp: min_def max_def)
  next
    case False
    with v have "value * d \<le> 0" "m * d \<le> value * d"
      by (simp_all add: mult_nonneg_nonpos mult_right_mono_neg)
    then show ?thesis by (auto simp: min_def max_def)
  qed
  show ?thesis
    using * [of "vec_x (p1 input)" "vec_x (p2 input) - vec_x (p1 input)"]
      * [of "vec_y (p1 input)" "vec_y (p2 input) - vec_y (p1 input)"]
    by (simp add: Contains_def clipped_box_def segment_box_def cb2Min_def cb2Max_def
        vec_add_def vec_scale_def vec_sub_def)
qed

text \<open>
  Claim C3, as the code has it. When the loop of \<^verbatim>\<open>RayCast\<close> pops a leaf that passes both
  pruning tests, the value that the visitor returns is read so: 0 ends the traversal at
  once, whatever is left on the stack, with no further node processed and no further
  call; a positive value becomes the maximal fraction, and the segment box that the next
  iterations prune with becomes the bounding box of \<open>p1\<close> and \<open>p1 + value * (p2 - p1)\<close>,
  which lies inside the box before when the value is not larger than the fraction
  before; a negative value leaves the maximal fraction and the segment box as they are,
  and the traversal goes on.
\<close>

theorem raycast_return_value_semantics:
  "node_at (r_tree st) i = Some node \<and> IsLeaf node \<and>
   cb2TestOverlap (aabb node) (r_segmentAABB st) \<and>
   separation v abs_v (p1 input) (aabb node) \<le> 0 \<and>
   rcb (r_visitor st) \<lparr>p1 = p1 input, p2 = p2 input, maxFraction = r_maxFraction st\<rparr> i = (value, s') \<longrightarrow>
   (value = 0 \<longrightarrow>
      RayCast_loop (Suc k) rcb input v abs_v (st\<lparr>r_stack := i # rest\<rparr>) =
        Some (Inr (st\<lparr>r_stack := rest, r_visitor := s',
                     r_calls := r_calls st @
                       [(\<lparr>p1 = p1 input, p2 = p2 input, maxFraction = r_maxFraction st\<rparr>, i, value)]\<rparr>))) \<and>
   (value > 0 \<longrightarrow>
      RayCast_loop (Suc k) rcb input v abs_v (st\<lparr>r_stack := i # rest\<rparr>) =
        RayCast_loop k rcb input v abs_v
          (st\<lparr>r_stack := rest, r_visitor := s',
              r_calls := r_calls st @
                [(\<lparr>p1 = p1 input, p2 = p2 input, maxFraction = r_maxFraction st\<rparr>, i, value)],
              r_maxFraction := value,
              r_segmentAABB :=
                \<lparr>lowerBound = cb2Min (p1 input)
                   (vec_add (p1 input) (vec_scale value (vec_sub (p2 input) (p1 input)))),
                 upperBound = cb2Max (p1 input)
                   (vec_add (p1 input) (vec_scale value (vec_sub (p2 input) (p1 input))))\<rparr>\<rparr>) \<and>
      (value \<le> r_maxFraction st \<and> r_segmentAABB st = clipped_box input (r_maxFraction st) \<longrightarrow>
         Contains (r_segmentAABB st) (clipped_box input value))) \<and>
   (value < 0 \<longrightarrow>
      RayCast_loop (Suc k) rcb input v abs_v (st\<lparr>r_stack := i # rest\<rparr>) =
        RayCast_loop k rcb input v abs_v
          (st\<lparr>r_stack := rest, r_visitor := s',
              r_calls := r_calls st @
                [(\<lparr>p1 = p1 input, p2 = p2 input, maxFraction = r_maxFraction st\<rparr>, i, value)],
              r_maxFraction := r_maxFraction st,
              r_segmentAABB := r_segmentAABB st\<rparr>))"
proof (intro impI)
  assume a: "node_at (r_tree st) i = Some node \<and> IsLeaf node \<and>
   cb2TestOverlap (aabb node) (r_segmentAABB st) \<and>
   separation v abs_v (p1 input) (aabb node) \<le> 0 \<and>
   rcb (r_visitor st) \<lparr>p1 = p1 input, p2 = p2 input, maxFraction = r_maxFraction st\<rparr> i = (value, s')"
  then have i: "i \<noteq> cb2_nullNode"
    by (auto simp: node_at_def cb2_nullNode_def split: if_splits)
  have shrink: "value > 0 \<Longrightarrow> value \<le> r_maxFraction st \<Longrightarrow>
      r_segmentAABB st = clipped_box input (r_maxFraction st) \<Longrightarrow>
      Contains (r_segmentAABB st) (clipped_box input value)"
    using clipped_box_shrinks [of "value" "r_maxFraction st" input] by simp
  from a i shrink show "(value = 0 \<longrightarrow>
      RayCast_loop (Suc k) rcb input v abs_v (st\<lparr>r_stack := i # rest\<rparr>) =
        Some (Inr (st\<lparr>r_stack := rest, r_visitor := s',
                     r_calls := r_calls st @
                       [(\<lparr>p1 = p1 input, p2 = p2 input, maxFraction = r_maxFraction st\<rparr>, i, value)]\<rparr>))) \<and>
   (value > 0 \<longrightarrow>
      RayCast_loop (Suc k) rcb input v abs_v (st\<lparr>r_stack := i # rest\<rparr>) =
        RayCast_loop k rcb input v abs_v
          (st\<lparr>r_stack := rest, r_visitor := s',
              r_calls := r_calls st @
                [(\<lparr>p1 = p1 input, p2 = p2 input, maxFraction = r_maxFraction st\<rparr>, i, value)],
              r_maxFraction := value,
              r_segmentAABB :=
                \<lparr>lowerBound = cb2Min (p1 input)
                   (vec_add (p1 input) (vec_scale value (vec_sub (p2 input) (p1 input)))),
                 upperBound = cb2Max (p1 input)
                   (vec_add (p1 input) (vec_scale value (vec_sub (p2 input) (p1 input))))\<rparr>\<rparr>) \<and>
      (value \<le> r_maxFraction st \<and> r_segmentAABB st = clipped_box input (r_maxFraction st) \<longrightarrow>
         Contains (r_segmentAABB st) (clipped_box input value))) \<and>
   (value < 0 \<longrightarrow>
      RayCast_loop (Suc k) rcb input v abs_v (st\<lparr>r_stack := i # rest\<rparr>) =
        RayCast_loop k rcb input v abs_v
          (st\<lparr>r_stack := rest, r_visitor := s',
              r_calls := r_calls st @
                [(\<lparr>p1 = p1 input, p2 = p2 input, maxFraction = r_maxFraction st\<rparr>, i, value)],
              r_maxFraction := r_maxFraction st,
              r_segmentAABB := r_segmentAABB st\<rparr>))"
    by (simp add: clipped_box_def segment_box_def)
qed


theorem raycast_return_value_semantics_witness:
  "RayCast_loop (Suc 0) (\<lambda>s inp i. (1 / 5, s)) (scene_ray (- 1) 1) (ray_v (scene_ray (- 1) 1))
       (cb2Abs (ray_v (scene_ray (- 1) 1))) ((ray_start scene (scene_ray (- 1) 1) ())\<lparr>r_stack := [2]\<rparr>) =
     Some (Inr \<lparr>r_tree = scene, r_visitor = (), r_stack = [], r_maxFraction = 1 / 5,
                r_segmentAABB = box (- 1) (3 / 4) 1 (3 / 4),
                r_calls = [(scene_ray (- 1) 1, 2, 1 / 5)]\<rparr>) \<and>
   Contains (box (- 1) (3 / 4) 9 (3 / 4)) (box (- 1) (3 / 4) 1 (3 / 4)) \<and>
   RayCast_loop (Suc 0) (\<lambda>s inp i. (0, s)) (scene_ray (- 1) 1) (ray_v (scene_ray (- 1) 1))
       (cb2Abs (ray_v (scene_ray (- 1) 1))) ((ray_start scene (scene_ray (- 1) 1) ())\<lparr>r_stack := [2, 0, 1]\<rparr>) =
     Some (Inr \<lparr>r_tree = scene, r_visitor = (), r_stack = [0, 1], r_maxFraction = 1,
                r_segmentAABB = box (- 1) (3 / 4) 9 (3 / 4),
                r_calls = [(scene_ray (- 1) 1, 2, 0)]\<rparr>) \<and>
   RayCast_loop (Suc 0) (\<lambda>s inp i. (- 1, s)) (scene_ray (- 1) 1) (ray_v (scene_ray (- 1) 1))
       (cb2Abs (ray_v (scene_ray (- 1) 1))) ((ray_start scene (scene_ray (- 1) 1) ())\<lparr>r_stack := [2]\<rparr>) =
     Some (Inr \<lparr>r_tree = scene, r_visitor = (), r_stack = [], r_maxFraction = 1,
                r_segmentAABB = box (- 1) (3 / 4) 9 (3 / 4),
                r_calls = [(scene_ray (- 1) 1, 2, - 1)]\<rparr>)"
  using raycast_return_value_semantics
    [of "(ray_start scene (scene_ray (- 1) 1) ())" 2
        "\<lparr>aabb = box (1 / 2) (1 / 2) (3 / 2) (3 / 2), userData = 102,
          parent = 3, child1 = - 1, child2 = - 1, height = 0\<rparr>"
        "ray_v (scene_ray (- 1) 1)" "cb2Abs (ray_v (scene_ray (- 1) 1))" "scene_ray (- 1) 1"
        "\<lambda>s inp i. (1 / 5, s)" "1 / 5" "()" 0 "[]"]
    raycast_return_value_semantics
    [of "(ray_start scene (scene_ray (- 1) 1) ())" 2
        "\<lparr>aabb = box (1 / 2) (1 / 2) (3 / 2) (3 / 2), userData = 102,
          parent = 3, child1 = - 1, child2 = - 1, height = 0\<rparr>"
        "ray_v (scene_ray (- 1) 1)" "cb2Abs (ray_v (scene_ray (- 1) 1))" "scene_ray (- 1) 1"
        "\<lambda>s inp i. (0, s)" 0 "()" 0 "[0, 1]"]
    raycast_return_value_semantics
    [of "(ray_start scene (scene_ray (- 1) 1) ())" 2
        "\<lparr>aabb = box (1 / 2) (1 / 2) (3 / 2) (3 / 2), userData = 102,
          parent = 3, child1 = - 1, child2 = - 1, height = 0\<rparr>"
        "ray_v (scene_ray (- 1) 1)" "cb2Abs (ray_v (scene_ray (- 1) 1))" "scene_ray (- 1) 1"
        "\<lambda>s inp i. (- 1, s)" "- 1" "()" 0 "[]"]
  by (simp add: scene_eval Contains_def)

text \<open>
  The visitor returns 1 on proxy 2 while the maximal fraction is 1/5: the segment box
  grows from [-1, 1] to [-1, 9] in x, and proxy 1, outside the box before, is visited.
\<close>

theorem raycast_larger_return_widens_box:
  "RayCast 5 scene (\<lambda>s inp i. (if i = 2 then 1 else - 1, s)) (scene_ray (- 1) (1 / 5)) () =
     Some (Inr \<lparr>r_tree = scene, r_visitor = (), r_stack = [], r_maxFraction = 1,
                r_segmentAABB = box (- 1) (3 / 4) 9 (3 / 4),
                r_calls = [(scene_ray (- 1) (1 / 5), 2, 1), (scene_ray (- 1) 1, 0, - 1),
                           (scene_ray (- 1) 1, 1, - 1)]\<rparr>) \<and>
   clipped_box (scene_ray (- 1) (1 / 5)) (1 / 5) = box (- 1) (3 / 4) 1 (3 / 4) \<and>
   clipped_box (scene_ray (- 1) (1 / 5)) 1 = box (- 1) (3 / 4) 9 (3 / 4) \<and>
   \<not> Contains (box (- 1) (3 / 4) 1 (3 / 4)) (box (- 1) (3 / 4) 9 (3 / 4))"
  by (simp add: scene_eval Contains_def eval_nat_numeral)

section \<open>The sub-input handed to the ray callback\<close>

lemma RayCast_loop_invariant:
  assumes run: "RayCast_loop n cb inp v av st = Some (Inr r)"
    and start: "I st"
    and stack: "\<And>st stk. I st \<Longrightarrow> I (st\<lparr>r_stack := stk\<rparr>)"
    and call: "\<And>st i rest node value s'. I st \<Longrightarrow> node_at (r_tree st) i = Some node \<Longrightarrow>
        IsLeaf node \<Longrightarrow> cb2TestOverlap (aabb node) (r_segmentAABB st) \<Longrightarrow>
        separation v av (p1 inp) (aabb node) \<le> 0 \<Longrightarrow>
        cb (r_visitor st) \<lparr>p1 = p1 inp, p2 = p2 inp, maxFraction = r_maxFraction st\<rparr> i = (value, s') \<Longrightarrow>
        I (after_call inp st i rest value s')"
  shows "I r"
  using run start
proof (induction n arbitrary: st)
  case 0
  then show ?case by (auto split: list.splits)
next
  case (Suc n)
  show ?case
  proof (cases "r_stack st")
    case Nil
    with Suc.prems show ?thesis by auto
  next
    case (Cons i rest)
    show ?thesis
    proof (cases "i = cb2_nullNode")
      case True
      with Suc.prems Cons Suc.IH [of "st\<lparr>r_stack := rest\<rparr>"] stack [of st rest]
      show ?thesis by simp
    next
      case notnull: False
      show ?thesis
      proof (cases "node_at (r_tree st) i")
        case None
        with Suc.prems Cons notnull show ?thesis by simp
      next
        case (Some node)
        show ?thesis
        proof (cases "cb2TestOverlap (aabb node) (r_segmentAABB st) \<and>
            separation v av (p1 inp) (aabb node) \<le> 0")
          case False
          with Suc.prems Cons notnull Some Suc.IH [of "st\<lparr>r_stack := rest\<rparr>"] stack [of st rest]
          show ?thesis by (auto split: if_splits)
        next
          case pass: True
          show ?thesis
          proof (cases "IsLeaf node")
            case False
            with Suc.prems Cons notnull Some pass
              Suc.IH [of "st\<lparr>r_stack := child2 node # child1 node # rest\<rparr>"]
              stack [of st "child2 node # child1 node # rest"]
            show ?thesis by (auto split: if_splits)
          next
            case leaf: True
            obtain "value" s' where cb: "cb (r_visitor st)
                \<lparr>p1 = p1 inp, p2 = p2 inp, maxFraction = r_maxFraction st\<rparr> i = (value, s')"
              by (cases "cb (r_visitor st) \<lparr>p1 = p1 inp, p2 = p2 inp, maxFraction = r_maxFraction st\<rparr> i")
            have I': "I (after_call inp st i rest value s')"
              using call [OF Suc.prems(2) Some leaf _ _ cb] pass by simp
            show ?thesis
            proof (cases "value = 0")
              case True
              with Suc.prems Cons notnull Some pass leaf cb I' show ?thesis
                by (auto simp: after_call_def)
            next
              case False
              with Suc.prems(1) Cons notnull Some pass leaf cb
              have "RayCast_loop n cb inp v av (after_call inp st i rest value s') = Some (Inr r)"
                by (auto simp: after_call_def split: if_splits)
              then show ?thesis using Suc.IH I' by blast
            qed
          qed
        qed
      qed
    qed
  qed
qed

lemma clipped_fraction_Nil: "clipped_fraction m0 [] = m0"
  by (simp add: clipped_fraction_def Let_def)

lemma clipped_fraction_snoc:
  "clipped_fraction m0 (vs @ [v]) = (if v > 0 then v else clipped_fraction m0 vs)"
  by (simp add: clipped_fraction_def Let_def)

lemma inputs_ok_after_call:
  assumes "inputs_ok inp st"
  shows "inputs_ok inp (after_call inp st i rest value s')"
proof -
  let ?c = "(\<lparr>p1 = p1 inp, p2 = p2 inp, maxFraction = r_maxFraction st\<rparr>, i, value)"
  have calls: "r_calls (after_call inp st i rest value s') = r_calls st @ [?c]"
    by (simp add: after_call_def)
  have frac: "r_maxFraction (after_call inp st i rest value s') =
      (if value > 0 then value else r_maxFraction st)"
    by (simp add: after_call_def)
  have "fst ((r_calls st @ [?c]) ! j) =
        \<lparr>p1 = p1 inp, p2 = p2 inp,
         maxFraction = clipped_fraction (maxFraction inp) (returned (take j (r_calls st @ [?c])))\<rparr>"
    if "j < Suc (length (r_calls st))" for j
  proof (cases "j < length (r_calls st)")
    case True
    with assms show ?thesis by (simp add: inputs_ok_def nth_append)
  next
    case False
    with that have "j = length (r_calls st)" by simp
    with assms show ?thesis by (simp add: inputs_ok_def)
  qed
  with assms show ?thesis
    unfolding inputs_ok_def calls frac
    by (simp add: returned_def clipped_fraction_snoc)
qed

lemma RayCast_inputs_ok:
  assumes "RayCast n t rcb input s = Some (Inr r)"
  shows "inputs_ok input r"
proof -
  from assms
  have run: "RayCast_loop n rcb input (ray_v input) (cb2Abs (ray_v input)) (ray_start t input s) =
      Some (Inr r)"
    by (simp add: RayCast_def split: if_splits)
  show ?thesis
  proof (rule RayCast_loop_invariant [OF run, where I = "inputs_ok input"])
    show "inputs_ok input (ray_start t input s)"
      by (simp add: inputs_ok_def ray_start_def returned_def clipped_fraction_Nil)
  next
    fix st :: "'a ray_run" and stk
    assume "inputs_ok input st"
    then show "inputs_ok input (st\<lparr>r_stack := stk\<rparr>)" by (simp add: inputs_ok_def)
  next
    fix st :: "'a ray_run" and i rest "value" s'
    assume "inputs_ok input st"
    then show "inputs_ok input (after_call input st i rest value s')"
      by (rule inputs_ok_after_call)
  qed
qed

text \<open>
  Claim C8. In a returning run of \<^verbatim>\<open>RayCast\<close>, every call of the ray callback was handed
  a sub-input with the \<open>p1\<close> and \<open>p2\<close> of the input, and with the clipped fraction at
  that moment as its \<^verbatim>\<open>maxFraction\<close>: the most recent positive value among the values
  that the earlier calls returned, or the \<^verbatim>\<open>maxFraction\<close> of the input when none was
  positive.
\<close>

theorem raycast_subinput_carries_clipped_fraction:
  "RayCast n t rcb input s = Some (Inr r) \<longrightarrow>
   (\<forall>j < length (r_calls r). fst (r_calls r ! j) =
      \<lparr>p1 = p1 input, p2 = p2 input,
       maxFraction = clipped_fraction (maxFraction input) (returned (take j (r_calls r)))\<rparr>)"
  using RayCast_inputs_ok [of n t rcb input s r] by (simp add: inputs_ok_def)

theorem raycast_subinput_carries_clipped_fraction_witness:
  "RayCast 5 scene (\<lambda>s inp i. (if i = 2 then 3 / 10 else - 1, s)) (scene_ray (- 1) 1) () =
     Some (Inr \<lparr>r_tree = scene, r_visitor = (), r_stack = [], r_maxFraction = 3 / 10,
                r_segmentAABB = box (- 1) (3 / 4) 2 (3 / 4),
                r_calls = [(scene_ray (- 1) 1, 2, 3 / 10), (scene_ray (- 1) (3 / 10), 0, - 1)]\<rparr>) \<and>
   scene_ray (- 1) (3 / 10) =
     \<lparr>p1 = p1 (scene_ray (- 1) 1), p2 = p2 (scene_ray (- 1) 1),
      maxFraction = clipped_fraction 1 [3 / 10]\<rparr>"
proof -
  have run: "RayCast 5 scene (\<lambda>s inp i. (if i = 2 then 3 / 10 else - 1, s)) (scene_ray (- 1) 1) () =
     Some (Inr \<lparr>r_tree = scene, r_visitor = (), r_stack = [], r_maxFraction = 3 / 10,
                r_segmentAABB = box (- 1) (3 / 4) 2 (3 / 4),
                r_calls = [(scene_ray (- 1) 1, 2, 3 / 10), (scene_ray (- 1) (3 / 10), 0, - 1)]\<rparr>)"
    by (simp add: scene_eval eval_nat_numeral)
  have "fst (r_calls \<lparr>r_tree = scene, r_visitor = (), r_stack = [], r_maxFraction = 3 / 10,
          r_segmentAABB = box (- 1) (3 / 4) 2 (3 / 4),
          r_calls = [(scene_ray (- 1) 1, 2, 3 / 10), (scene_ray (- 1) (3 / 10), 0, - 1)]\<rparr> ! 1) =
      \<lparr>p1 = p1 (scene_ray (- 1) 1), p2 = p2 (scene_ray (- 1) 1),
       maxFraction = clipped_fraction (maxFraction (scene_ray (- 1) 1))
         (returned (take 1 (r_calls \<lparr>r_tree = scene, r_visitor = (), r_stack = [], r_maxFraction = 3 / 10,
          r_segmentAABB = box (- 1) (3 / 4) 2 (3 / 4),
          r_calls = [(scene_ray (- 1) 1, 2, 3 / 10), (scene_ray (- 1) (3 / 10), 0, - 1)]\<rparr>)))\<rparr>"
    using raycast_subinput_carries_clipped_fraction [THEN mp, OF run, THEN spec, of 1] by simp
  then have "scene_ray (- 1) (3 / 10) =
     \<lparr>p1 = p1 (scene_ray (- 1) 1), p2 = p2 (scene_ray (- 1) 1),
      maxFraction = clipped_fraction 1 [3 / 10]\<rparr>"
    by (simp add: returned_def scene_ray_def)
  with run show ?thesis by simp
qed

section \<open>Query visits exactly the overlapping leaves\<close>

inductive_cases tree_shape_EmptyE: "tree_shape t i Empty"
inductive_cases tree_shape_LeafE: "tree_shape t i (Leaf j)"
inductive_cases tree_shape_InnerE: "tree_shape t i (Inner j a b)"

lemma node_at_not_null: "node_at t i = Some node \<Longrightarrow> i \<noteq> cb2_nullNode"
  by (auto simp: node_at_def cb2_nullNode_def split: if_splits)

lemma steps_pos: "0 < steps sh"
  by (cases sh) simp_all

lemma Query_loop_visit:
  assumes always: "\<And>s i. fst (cb s i)"
  shows "list_all2 (tree_shape (q_tree st)) (q_stack st) shs \<Longrightarrow>
    sum_list (map steps shs) \<le> n \<Longrightarrow>
    \<exists>r. Query_loop n cb b st = Some (Inr r) \<and>
      q_calls r = q_calls st @ map (\<lambda>i. (i, True)) (concat (map (visit (q_tree st) b) shs))"
proof (induction n arbitrary: st shs)
  case 0
  have "shs = []"
  proof (cases shs)
    case (Cons sh rest)
    with "0.prems"(2) steps_pos [of sh] show ?thesis by simp
  qed simp
  with "0.prems"(1) show ?case by simp
next
  case (Suc n)
  show ?case
  proof (cases shs)
    case Nil
    with Suc.prems(1) show ?thesis by simp
  next
    case (Cons sh shs')
    with Suc.prems(1) obtain i rest where stack: "q_stack st = i # rest"
      and sh: "tree_shape (q_tree st) i sh"
      and rest: "list_all2 (tree_shape (q_tree st)) rest shs'"
      by (auto simp: list_all2_Cons2)
    from Suc.prems(2) Cons have fuel: "steps sh + sum_list (map steps shs') \<le> Suc n" by simp
    show ?thesis
    proof (cases sh)
      case Empty
      with sh have "i = cb2_nullNode" by (auto elim: tree_shape_EmptyE)
      moreover from fuel Empty have "sum_list (map steps shs') \<le> n" by simp
      ultimately show ?thesis
        using Suc.IH [of "st\<lparr>q_stack := rest\<rparr>" shs'] rest stack Cons Empty by simp
    next
      case (Leaf j)
      with sh obtain node where j: "j = i" and node: "node_at (q_tree st) i = Some node"
        and leaf: "IsLeaf node"
        by (auto elim: tree_shape_LeafE)
      from fuel Leaf have fuel': "sum_list (map steps shs') \<le> n" by simp
      note nn = node_at_not_null [OF node]
      show ?thesis
      proof (cases "cb2TestOverlap (aabb node) b")
        case False
        then show ?thesis
          using Suc.IH [of "st\<lparr>q_stack := rest\<rparr>" shs'] rest stack Cons Leaf j node nn fuel'
          by (simp add: overlaps_at_def)
      next
        case True
        obtain s' where cb: "cb (q_visitor st) i = (True, s')"
          using always [of "q_visitor st" i] by (cases "cb (q_visitor st) i") simp
        show ?thesis
          using Suc.IH [of "st\<lparr>q_stack := rest, q_visitor := s',
              q_calls := q_calls st @ [(i, True)]\<rparr>" shs']
            rest stack Cons Leaf j node nn fuel' True leaf cb
          by (simp add: overlaps_at_def)
      qed
    next
      case (Inner j l r)
      with sh obtain node where j: "j = i" and node: "node_at (q_tree st) i = Some node"
        and inner: "\<not> IsLeaf node"
        and l: "tree_shape (q_tree st) (child1 node) l"
        and r: "tree_shape (q_tree st) (child2 node) r"
        by (auto elim: tree_shape_InnerE)
      note nn = node_at_not_null [OF node]
      show ?thesis
      proof (cases "cb2TestOverlap (aabb node) b")
        case False
        from fuel Inner have "sum_list (map steps shs') \<le> n" by simp
        with False show ?thesis
          using Suc.IH [of "st\<lparr>q_stack := rest\<rparr>" shs'] rest stack Cons Inner j node nn
          by (simp add: overlaps_at_def)
      next
        case True
        from fuel Inner have "sum_list (map steps (r # l # shs')) \<le> n" by simp
        moreover have "list_all2 (tree_shape (q_tree st)) (child2 node # child1 node # rest)
            (r # l # shs')"
          using l r rest by simp
        ultimately show ?thesis
          using Suc.IH [of "st\<lparr>q_stack := child2 node # child1 node # rest\<rparr>" "r # l # shs'"]
            stack Cons Inner j node nn True inner
          by (simp add: overlaps_at_def)
      qed
    qed
  qed
qed

lemma Contains_overlap:
  "Contains outer inner \<Longrightarrow> cb2TestOverlap inner b \<Longrightarrow> cb2TestOverlap outer b"
  by (auto simp: Contains_def cb2TestOverlap_def vec_sub_def Let_def split: if_splits)

lemma encloses_Inner:
  "encloses t (Inner i a b) \<longleftrightarrow>
     (case node_at t i of None \<Rightarrow> False
      | Some node \<Rightarrow> encloses_child t node (child1 node) \<and> encloses_child t node (child2 node)) \<and>
     encloses t a \<and> encloses t b"
  by (simp add: encloses_def)

lemma child_overlap:
  "encloses_child t node c \<Longrightarrow> overlaps_at t b c \<Longrightarrow> cb2TestOverlap (aabb node) b"
  by (auto simp: encloses_child_def overlaps_at_def split: option.splits intro: Contains_overlap)

lemma root_overlaps:
  "tree_shape t i sh \<Longrightarrow> encloses t sh \<Longrightarrow> l \<in> set (leaf_ids sh) \<Longrightarrow> overlaps_at t b l \<Longrightarrow>
   overlaps_at t b i"
proof (induction rule: tree_shape.induct)
  case tree_null
  then show ?case by simp
next
  case (tree_leaf i node)
  then show ?case by simp
next
  case (tree_inner i node a1 a2)
  from tree_inner.prems(1) tree_inner.hyps(1)
  have enc: "encloses_child t node (child1 node)" "encloses_child t node (child2 node)"
    "encloses t a1" "encloses t a2"
    by (simp_all add: encloses_Inner)
  from tree_inner.prems(2) consider "l \<in> set (leaf_ids a1)" | "l \<in> set (leaf_ids a2)" by auto
  then have "cb2TestOverlap (aabb node) b"
  proof cases
    case 1
    with tree_inner.IH(1) enc tree_inner.prems(3) have "overlaps_at t b (child1 node)" by simp
    with enc(1) show ?thesis by (rule child_overlap)
  next
    case 2
    with tree_inner.IH(2) enc tree_inner.prems(3) have "overlaps_at t b (child2 node)" by simp
    with enc(2) show ?thesis by (rule child_overlap)
  qed
  with tree_inner.hyps(1) show ?case by (simp add: overlaps_at_def)
qed

lemma set_visit:
  "tree_shape t i sh \<Longrightarrow> encloses t sh \<Longrightarrow>
   set (visit t b sh) = {l \<in> set (leaf_ids sh). overlaps_at t b l}"
proof (induction rule: tree_shape.induct)
  case tree_null
  then show ?case by simp
next
  case (tree_leaf i node)
  then show ?case by auto
next
  case (tree_inner i node a1 a2)
  from tree_inner.prems tree_inner.hyps(1)
  have enc: "encloses t a1" "encloses t a2"
    by (simp_all add: encloses_Inner)
  have sh: "tree_shape t i (Inner i a1 a2)"
    using tree_inner.hyps by (rule tree_shape.tree_inner)
  show ?case
  proof (cases "overlaps_at t b i")
    case True
    with tree_inner.IH enc show ?thesis by auto
  next
    case False
    with root_overlaps [OF sh tree_inner.prems] show ?thesis by auto
  qed
qed

text \<open>
  Claim C1. Take a tree state whose child links below the root form a tree \<open>sh\<close>, in
  which the box of every internal node contains the boxes of both of its children, and a
  visitor whose callback always returns true. Then \<^verbatim>\<open>Query\<close> returns, for every query
  box, and the node indices it called the callback with are exactly the leaves of the
  tree whose stored (fat) box overlaps the query box: no call is made on a leaf whose
  box is disjoint from the query box, every leaf whose box overlaps it is visited, and
  when no leaf box overlaps the query box no call is made at all.
\<close>

theorem query_visits_exactly_overlapping_leaves:
  assumes "tree_shape t (m_root t) sh"
    and "encloses t sh"
    and "\<forall>s i. fst (cb s i)"
  shows "\<exists>n r. Query n t cb qbox s = Some (Inr r) \<and>
    set (map fst (q_calls r)) = {l \<in> set (leaf_ids sh). overlaps_at t qbox l} \<and>
    ((\<forall>l \<in> set (leaf_ids sh). \<not> overlaps_at t qbox l) \<longrightarrow> q_calls r = [])"
proof -
  let ?st = "\<lparr>q_tree = t, q_visitor = s, q_stack = [m_root t], q_calls = []\<rparr>"
  have "list_all2 (tree_shape (q_tree ?st)) (q_stack ?st) [sh]"
    using assms(1) by simp
  moreover have "sum_list (map steps [sh]) \<le> steps sh" by simp
  ultimately obtain r where run: "Query_loop (steps sh) cb qbox ?st = Some (Inr r)"
    and calls: "q_calls r = q_calls ?st @
      map (\<lambda>i. (i, True)) (concat (map (visit (q_tree ?st) qbox) [sh]))"
    using Query_loop_visit [of cb ?st "[sh]" "steps sh" qbox] assms(3) by blast
  from calls have "map fst (q_calls r) = visit t qbox sh"
    by (simp add: comp_def)
  with set_visit [OF assms(1,2), of qbox]
  have eq: "set (map fst (q_calls r)) = {l \<in> set (leaf_ids sh). overlaps_at t qbox l}"
    by simp
  have "q_calls r = []" if "\<forall>l \<in> set (leaf_ids sh). \<not> overlaps_at t qbox l"
  proof -
    from that have "{l \<in> set (leaf_ids sh). overlaps_at t qbox l} = {}" by simp
    with eq show ?thesis by simp
  qed
  then have "(\<forall>l \<in> set (leaf_ids sh). \<not> overlaps_at t qbox l) \<longrightarrow> q_calls r = []"
    by blast
  with run eq show ?thesis unfolding Query_def by blast
qed

lemma scene_tree_shape: "tree_shape scene (m_root scene) scene_shape"
proof -
  have n: "node_at scene 0 = Some (m_nodes scene ! 0)" "node_at scene 1 = Some (m_nodes scene ! 1)"
    "node_at scene 2 = Some (m_nodes scene ! 2)" "node_at scene 3 = Some (m_nodes scene ! 3)"
    "node_at scene 4 = Some (m_nodes scene ! 4)"
    by (simp_all add: node_at_def scene_def)
  have k: "IsLeaf (m_nodes scene ! 0)" "IsLeaf (m_nodes scene ! 1)" "IsLeaf (m_nodes scene ! 2)"
    "\<not> IsLeaf (m_nodes scene ! 3)" "\<not> IsLeaf (m_nodes scene ! 4)"
    by (simp_all add: scene_def IsLeaf_def cb2_nullNode_def)
  have c: "child1 (m_nodes scene ! 3) = 0" "child2 (m_nodes scene ! 3) = 2"
    "child1 (m_nodes scene ! 4) = 1" "child2 (m_nodes scene ! 4) = 3" "m_root scene = 4"
    by (simp_all add: scene_def)
  have l0: "tree_shape scene 0 (Leaf 0)" by (rule tree_leaf [OF n(1) k(1)])
  have l1: "tree_shape scene 1 (Leaf 1)" by (rule tree_leaf [OF n(2) k(2)])
  have l2: "tree_shape scene 2 (Leaf 2)" by (rule tree_leaf [OF n(3) k(3)])
  have i3: "tree_shape scene 3 (Inner 3 (Leaf 0) (Leaf 2))"
    by (rule tree_inner [OF n(4) k(4)]) (simp_all only: c l0 l2)
  have "tree_shape scene 4 (Inner 4 (Leaf 1) (Inner 3 (Leaf 0) (Leaf 2)))"
    by (rule tree_inner [OF n(5) k(5)]) (simp_all only: c l1 i3)
  then show ?thesis by (simp only: scene_shape_def c)
qed

theorem query_visits_exactly_overlapping_leaves_witness:
  "(\<exists>n r. Query n scene (\<lambda>s i. (True, s)) (box 0 0 2 2) () = Some (Inr r) \<and>
      set (map fst (q_calls r)) = {0, 2}) \<and>
   (\<exists>n r. Query n scene (\<lambda>s i. (True, s)) (box 2 2 3 3) () = Some (Inr r) \<and> q_calls r = [])"
proof -
  have enc: "encloses scene scene_shape"
    by (simp add: encloses_def scene_shape_def encloses_child_def node_at_def scene_def
        Contains_def box_def)
  have always: "\<forall>s i. fst ((\<lambda>s i. (True, s)) (s::unit) (i::int))" by simp
  have ov: "overlaps_at scene (box 0 0 2 2) 0" "\<not> overlaps_at scene (box 0 0 2 2) 1"
    "overlaps_at scene (box 0 0 2 2) 2"
    "\<not> overlaps_at scene (box 2 2 3 3) 0" "\<not> overlaps_at scene (box 2 2 3 3) 1"
    "\<not> overlaps_at scene (box 2 2 3 3) 2"
    by (simp_all add: overlaps_at_def node_at_def scene_def box_def cb2TestOverlap_def vec_sub_def)
  have s1: "{l \<in> set (leaf_ids scene_shape). overlaps_at scene (box 0 0 2 2) l} = {0, 2}"
    using ov by (auto simp: scene_shape_def)
  have s2: "\<forall>l \<in> set (leaf_ids scene_shape). \<not> overlaps_at scene (box 2 2 3 3) l"
    using ov by (simp add: scene_shape_def)
  from query_visits_exactly_overlapping_leaves [OF scene_tree_shape enc always, of "box 0 0 2 2" "()"]
    query_visits_exactly_overlapping_leaves [OF scene_tree_shape enc always, of "box 2 2 3 3" "()"]
    s1 s2
  show ?thesis by (metis (no_types, lifting))
qed

section \<open>Later calls stay inside the clipped segment box\<close>

lemma RayCast_hits_ok:
  assumes "RayCast n t rcb input s = Some (Inr r)"
  shows "hits_ok input t r"
proof -
  from assms
  have run: "RayCast_loop n rcb input (ray_v input) (cb2Abs (ray_v input)) (ray_start t input s) =
      Some (Inr r)"
    by (simp add: RayCast_def split: if_splits)
  show ?thesis
  proof (rule RayCast_loop_invariant [OF run, where I = "hits_ok input t"])
    show "hits_ok input t (ray_start t input s)"
      by (simp add: hits_ok_def ray_start_def)
  next
    fix st :: "'a ray_run" and stk
    assume "hits_ok input t st"
    then show "hits_ok input t (st\<lparr>r_stack := stk\<rparr>)" by (simp add: hits_ok_def)
  next
    fix st :: "'a ray_run" and i rest node "value" s'
    assume "hits_ok input t st" "node_at (r_tree st) i = Some node"
      "cb2TestOverlap (aabb node) (r_segmentAABB st)"
    then show "hits_ok input t (after_call input st i rest value s')"
      by (auto simp: hits_ok_def after_call_def)
  qed
qed

lemma overlap_in_larger_box:
  "Contains outer inner \<Longrightarrow> cb2TestOverlap b inner \<Longrightarrow> cb2TestOverlap b outer"
  by (auto simp: Contains_def cb2TestOverlap_def vec_sub_def Let_def split: if_splits)

lemma clipped_fraction_bounded:
  "0 < f \<Longrightarrow> \<forall>w \<in> set ws. w \<le> f \<Longrightarrow>
   0 < clipped_fraction m0 (vs @ f # ws) \<and> clipped_fraction m0 (vs @ f # ws) \<le> f"
proof (induction ws rule: rev_induct)
  case Nil
  then show ?case using clipped_fraction_snoc [of m0 vs f] by simp
next
  case (snoc w ws)
  then show ?case
    using clipped_fraction_snoc [of m0 "vs @ f # ws" w] by auto
qed

lemma take_split_at:
  assumes "j < k" "k \<le> length xs"
  shows "take k xs = take j xs @ xs ! j # drop (Suc j) (take k xs)"
proof -
  from assms have "j < length (take k xs)" by simp
  from id_take_nth_drop [OF this] assms show ?thesis
    by (simp add: min_def)
qed

lemma between_elements:
  assumes "x \<in> set (drop (Suc j) (take k xs))"
  shows "\<exists>l. j < l \<and> l < k \<and> l < length xs \<and> x = xs ! l"
proof -
  from assms obtain i where i: "i < length (drop (Suc j) (take k xs))"
    and x: "x = drop (Suc j) (take k xs) ! i"
    by (auto simp: in_set_conv_nth)
  from i have b: "Suc j + i < k" "Suc j + i < length xs" by simp_all
  have "drop (Suc j) (take k xs) ! i = take k xs ! (Suc j + i)"
    using b by (intro nth_drop) simp
  also have "\<dots> = xs ! (Suc j + i)"
    using b by simp
  finally have "x = xs ! (Suc j + i)" using x by simp
  with b show ?thesis by (intro exI [of _ "Suc j + i"]) simp
qed

text \<open>
  Claim C2, as the code has it. In a returning run of \<^verbatim>\<open>RayCast\<close>, let call \<open>j\<close> return
  the positive fraction \<open>f\<close>, and let every call after \<open>j\<close> and before a later call \<open>k\<close>
  return a value that is at most \<open>f\<close>. Then call \<open>k\<close> was handed a positive fraction that is
  at most \<open>f\<close>, and it is made on a node whose box passes the box test against the segment
  box for \<open>f\<close>, the bounding box of \<open>p1\<close> and \<open>p1 + f * (p2 - p1)\<close> that the source prunes
  with: no leaf whose box lies outside that box is visited by call \<open>k\<close>.
\<close>

theorem raycast_later_calls_overlap_clipped_box:
  assumes run: "RayCast n t rcb input s = Some (Inr r)"
    and jk: "j < k" "k < length (r_calls r)"
    and f: "snd (snd (r_calls r ! j)) = f" "0 < f"
    and between: "\<forall>l. j < l \<and> l < k \<longrightarrow> snd (snd (r_calls r ! l)) \<le> f"
    and node: "node_at t (fst (snd (r_calls r ! k))) = Some node"
  shows "0 < maxFraction (fst (r_calls r ! k)) \<and> maxFraction (fst (r_calls r ! k)) \<le> f \<and>
    cb2TestOverlap (aabb node) (clipped_box input f)"
proof -
  let ?calls = "r_calls r"
  let ?m = "clipped_fraction (maxFraction input) (returned (take k ?calls))"
  have split: "take k ?calls = take j ?calls @ ?calls ! j # drop (Suc j) (take k ?calls)"
    using jk by (intro take_split_at) simp_all
  have "returned (take j ?calls @ ?calls ! j # drop (Suc j) (take k ?calls)) =
      returned (take j ?calls) @ f # returned (drop (Suc j) (take k ?calls))"
    using f(1) by (simp add: returned_def)
  with arg_cong [OF split, of returned]
  have ret: "returned (take k ?calls) =
      returned (take j ?calls) @ f # returned (drop (Suc j) (take k ?calls))"
    by (rule trans)
  have "\<forall>w \<in> set (returned (drop (Suc j) (take k ?calls))). w \<le> f"
    using between by (auto simp: returned_def dest!: between_elements)
  with f(2) have m: "0 < ?m" "?m \<le> f"
    unfolding ret using clipped_fraction_bounded by blast+
  from RayCast_inputs_ok [OF run] jk(2)
  have sub: "maxFraction (fst (?calls ! k)) = ?m"
    by (simp add: inputs_ok_def)
  from RayCast_hits_ok [OF run] jk(2) node sub
  have pass: "cb2TestOverlap (aabb node) (clipped_box input ?m)"
    by (auto simp: hits_ok_def dest!: bspec [where x = "?calls ! k"])
  have "Contains (clipped_box input f) (clipped_box input ?m)"
    using m by (intro clipped_box_shrinks) simp_all
  then have "cb2TestOverlap (aabb node) (clipped_box input f)"
    using pass by (rule overlap_in_larger_box)
  with m sub show ?thesis by simp
qed

theorem raycast_later_calls_overlap_clipped_box_witness:
  "RayCast 5 scene (\<lambda>s inp i. (if i = 2 then 1 / 4 else - 1, s)) (scene_ray (- 1) 1) () =
     Some (Inr \<lparr>r_tree = scene, r_visitor = (), r_stack = [], r_maxFraction = 1 / 4,
                r_segmentAABB = box (- 1) (3 / 4) (3 / 2) (3 / 4),
                r_calls = [(scene_ray (- 1) 1, 2, 1 / 4), (scene_ray (- 1) (1 / 4), 0, - 1)]\<rparr>) \<and>
   maxFraction (scene_ray (- 1) (1 / 4)) \<le> 1 / 4 \<and>
   cb2TestOverlap (box 0 0 1 1) (clipped_box (scene_ray (- 1) 1) (1 / 4))"
proof -
  let ?r = "\<lparr>r_tree = scene, r_visitor = (), r_stack = [], r_maxFraction = 1 / 4,
                r_segmentAABB = box (- 1) (3 / 4) (3 / 2) (3 / 4),
                r_calls = [(scene_ray (- 1) 1, 2, 1 / 4), (scene_ray (- 1) (1 / 4), 0, - 1)]\<rparr>"
  have run: "RayCast 5 scene (\<lambda>s inp i. (if i = 2 then 1 / 4 else - 1, s)) (scene_ray (- 1) 1) () =
     Some (Inr ?r)"
    by (simp add: scene_eval eval_nat_numeral)
  have node: "node_at scene (fst (snd (r_calls ?r ! 1))) =
      Some \<lparr>aabb = box 0 0 1 1, userData = 100, parent = 3, child1 = - 1, child2 = - 1, height = 0\<rparr>"
    by (simp add: node_at_def scene_def)
  have "0 < maxFraction (fst (r_calls ?r ! 1)) \<and> maxFraction (fst (r_calls ?r ! 1)) \<le> 1 / 4 \<and>
    cb2TestOverlap
      (aabb \<lparr>aabb = box 0 0 1 1, userData = 100, parent = 3, child1 = - 1, child2 = - 1, height = 0\<rparr>)
      (clipped_box (scene_ray (- 1) 1) (1 / 4))"
    by (rule raycast_later_calls_overlap_clipped_box [OF run, of 0 1 "1 / 4", OF _ _ _ _ _ node])
      simp_all
  with run show ?thesis by simp
qed

text \<open>
  The visitor returns 1/4 on proxy 2 and then 1 on proxy 0. Proxy 1, whose box the ray
  enters at the fraction 3/5 and which lies outside the segment box for 1/4, is visited
  by the third call.
\<close>

theorem raycast_visits_leaf_beyond_earlier_fraction:
  "RayCast 5 scene (\<lambda>s inp i. (if i = 2 then 1 / 4 else if i = 0 then 1 else - 1, s))
       (scene_ray (- 1) 1) () =
     Some (Inr \<lparr>r_tree = scene, r_visitor = (), r_stack = [], r_maxFraction = 1,
                r_segmentAABB = box (- 1) (3 / 4) 9 (3 / 4),
                r_calls = [(scene_ray (- 1) 1, 2, 1 / 4), (scene_ray (- 1) (1 / 4), 0, 1),
                           (scene_ray (- 1) 1, 1, - 1)]\<rparr>) \<and>
   node_at scene 1 = Some \<lparr>aabb = box 5 0 6 1, userData = 101, parent = 4,
                            child1 = - 1, child2 = - 1, height = 0\<rparr> \<and>
   beyond (scene_ray (- 1) 1) (box 5 0 6 1) (1 / 4) \<and>
   \<not> cb2TestOverlap (box 5 0 6 1) (clipped_box (scene_ray (- 1) 1) (1 / 4))"
proof -
  have "inside (box 5 0 6 1) (ray_point (scene_ray (- 1) 1) (3 / 5))"
    by (simp add: inside_def ray_point_def scene_ray_def box_def vec_add_def vec_scale_def vec_sub_def)
  moreover have "\<not> inside (box 5 0 6 1) (ray_point (scene_ray (- 1) 1) \<tau>)" if "\<tau> \<le> 1 / 4" for \<tau>
    using that
    by (simp add: inside_def ray_point_def scene_ray_def box_def vec_add_def vec_scale_def vec_sub_def)
  ultimately have "beyond (scene_ray (- 1) 1) (box 5 0 6 1) (1 / 4)"
    unfolding beyond_def by (intro conjI exI [of _ "3 / 5"]) simp_all
  then show ?thesis
    by (simp add: scene_eval eval_nat_numeral)
qed

end
